theory Spec2Isabelle
  imports Complex_Main "HOL-Library.Sublist" "HOL-Library.AList"
begin

section \<open>Paths (\<open>os.path\<close> on POSIX)\<close>

text \<open>
  Paths are Python strings. The three \<open>posixpath\<close> functions the services use are
  written out: \<open>join\<close> restarts at an absolute component and inserts one separator
  otherwise, \<open>basename\<close> is what follows the last separator, \<open>dirname\<close> is what
  precedes it with trailing separators stripped (unless it consists of separators only).
\<close>

definition os_path_join :: "string \<Rightarrow> string \<Rightarrow> string" where
  "os_path_join a b =
     (if b \<noteq> [] \<and> hd b = CHR ''/'' then b
      else if a = [] \<or> last a = CHR ''/'' then a @ b
      else a @ ''/'' @ b)"

definition os_path_basename :: "string \<Rightarrow> string" where
  "os_path_basename p = rev (takeWhile (\<lambda>c. c \<noteq> CHR ''/'') (rev p))"

definition os_path_dirname :: "string \<Rightarrow> string" where
  "os_path_dirname p =
     (let head = rev (dropWhile (\<lambda>c. c \<noteq> CHR ''/'') (rev p))
      in if head \<noteq> [] \<and> head \<noteq> replicate (length head) CHR ''/''
         then rev (dropWhile (\<lambda>c. c = CHR ''/'') (rev head))
         else head)"

section \<open>The file system and the background threads\<close>

text \<open>
  The world the services act on: the entries of the file system keyed by path (the first
  binding of a path is the current one), the paths on which the operating system refuses
  an operation with \<open>PermissionError\<close>, the log of every write of a file (path and
  content, in the order of the writes), and the daemon threads started so far, each with its delay and the paths it will delete.
\<close>

datatype node = File string | Dir

datatype os_error =
    FileNotFoundError
  | IsADirectoryError
  | NotADirectoryError
  | PermissionError
  | FileExistsError
  | DirectoryNotEmpty
  | ZeroDivisionError
  | IndexError
  | LibraryError

record world =
  entries :: "(string \<times> node) list"
  denied :: "string list"
  written :: "(string \<times> string) list"
  threads :: "(int \<times> string list) list"

definition lookup :: "world \<Rightarrow> string \<Rightarrow> node option" where
  "lookup w p = map_of (entries w) p"

definition os_path_exists :: "world \<Rightarrow> string \<Rightarrow> bool" where
  "os_path_exists w p = (lookup w p \<noteq> None)"

definition os_path_isfile :: "world \<Rightarrow> string \<Rightarrow> bool" where
  "os_path_isfile w p = (case lookup w p of Some (File _) \<Rightarrow> True | _ \<Rightarrow> False)"

definition os_path_isdir :: "world \<Rightarrow> string \<Rightarrow> bool" where
  "os_path_isdir w p = (lookup w p = Some Dir)"

definition children :: "world \<Rightarrow> string \<Rightarrow> string list" where
  "children w d = filter (\<lambda>p. p \<noteq> d \<and> os_path_dirname p = d) (map fst (entries w))"

definition os_listdir :: "world \<Rightarrow> string \<Rightarrow> os_error + string list" where
  "os_listdir w d =
     (case lookup w d of
        None \<Rightarrow> Inl FileNotFoundError
      | Some (File _) \<Rightarrow> Inl NotADirectoryError
      | Some Dir \<Rightarrow>
          if d \<in> set (denied w) then Inl PermissionError
          else Inr (map os_path_basename (children w d)))"

definition os_remove :: "world \<Rightarrow> string \<Rightarrow> os_error + world" where
  "os_remove w p =
     (case lookup w p of
        None \<Rightarrow> Inl FileNotFoundError
      | Some Dir \<Rightarrow> Inl IsADirectoryError
      | Some (File _) \<Rightarrow>
          if p \<in> set (denied w) then Inl PermissionError
          else Inr (w\<lparr>entries := AList.delete p (entries w)\<rparr>))"

definition os_rmdir :: "world \<Rightarrow> string \<Rightarrow> os_error + world" where
  "os_rmdir w p =
     (case lookup w p of
        None \<Rightarrow> Inl FileNotFoundError
      | Some (File _) \<Rightarrow> Inl NotADirectoryError
      | Some Dir \<Rightarrow>
          if p \<in> set (denied w) then Inl PermissionError
          else if children w p \<noteq> [] then Inl DirectoryNotEmpty
          else Inr (w\<lparr>entries := AList.delete p (entries w)\<rparr>))"

section \<open>\<open>utils.cleanup_files\<close>\<close>

text \<open>
  \<open>cleanup_path\<close> is the body of the \<open>try\<close> for one path; \<open>delayed_cleanup\<close> is the
  loop of the inner function, whose \<open>except Exception: pass\<close> drops the error of a path
  and goes on with the next one. The \<open>time.sleep\<close> of the inner function only runs in
  the thread. \<open>cleanup_files\<close> starts the thread when the delay is positive and runs the
  loop itself otherwise.
\<close>

definition cleanup_path :: "world \<Rightarrow> string \<Rightarrow> os_error + world" where
  "cleanup_path w p =
     (if os_path_exists w p then
        if os_path_isfile w p then os_remove w p
        else if os_path_isdir w p then
          (case os_listdir w p of
             Inl e \<Rightarrow> Inl e
           | Inr names \<Rightarrow> if names = [] then os_rmdir w p else Inr w)
        else Inr w
      else Inr w)"

fun delayed_cleanup :: "world \<Rightarrow> string list \<Rightarrow> os_error + world" where
  "delayed_cleanup w [] = Inr w"
| "delayed_cleanup w (p # ps) =
     (case cleanup_path w p of
        Inl e \<Rightarrow> delayed_cleanup w ps
      | Inr w' \<Rightarrow> delayed_cleanup w' ps)"

definition cleanup_files :: "world \<Rightarrow> string list \<Rightarrow> int \<Rightarrow> os_error + world" where
  "cleanup_files w file_paths delay =
     (if delay > 0 then Inr (w\<lparr>threads := threads w @ [(delay, file_paths)]\<rparr>)
      else delayed_cleanup w file_paths)"

subsection \<open>Example worlds\<close>

text \<open>
  A workspace that still holds a produced file, and a workspace next to a file the
  operating system refuses to delete.
\<close>

definition leftover_world :: world where
  "leftover_world =
     \<lparr>entries = [(''uploads/j1'', Dir), (''uploads/j1/out.pdf'', File ''%PDF'')],
      denied = [], written = [], threads = []\<rparr>"


definition empty_dir_world :: world where
  "empty_dir_world =
     \<lparr>entries = [(''uploads/j3'', Dir), (''uploads/other.pdf'', File ''%PDF'')],
      denied = [], written = [], threads = []\<rparr>"

section \<open>Python strings\<close>

text \<open>
  Strings are lists of 8-bit characters; the functions below are the \<open>str\<close> methods
  the services call, on ASCII text. \<open>str.split()\<close> without argument cuts at runs of
  white space and yields no empty word.
\<close>

definition ascii_uppercase :: string where
  "ascii_uppercase = ''ABCDEFGHIJKLMNOPQRSTUVWXYZ''"

definition ascii_lowercase :: string where
  "ascii_lowercase = ''abcdefghijklmnopqrstuvwxyz''"

definition ascii_digits :: string where
  "ascii_digits = ''0123456789''"

definition lower_char :: "char \<Rightarrow> char" where
  "lower_char c = (case map_of (zip ascii_uppercase ascii_lowercase) c of Some l \<Rightarrow> l | None \<Rightarrow> c)"

definition str_lower :: "string \<Rightarrow> string" where
  "str_lower s = map lower_char s"

definition startswith :: "string \<Rightarrow> string \<Rightarrow> bool" where
  "startswith s p = prefix p s"

definition endswith :: "string \<Rightarrow> string \<Rightarrow> bool" where
  "endswith s p = suffix p s"

definition str_contains :: "string \<Rightarrow> string \<Rightarrow> bool" where
  "str_contains sub s = sublist sub s"

definition is_space :: "char \<Rightarrow> bool" where
  "is_space c = (c \<in> set [CHR '' '', CHR 0x09, CHR 0x0A, CHR 0x0B, CHR 0x0C, CHR 0x0D,
                           CHR 0x1C, CHR 0x1D, CHR 0x1E, CHR 0x1F])"

definition str_strip_chars :: "string \<Rightarrow> string \<Rightarrow> string" where
  "str_strip_chars cs s =
     rev (dropWhile (\<lambda>c. c \<in> set cs) (rev (dropWhile (\<lambda>c. c \<in> set cs) s)))"

definition str_strip :: "string \<Rightarrow> string" where
  "str_strip s = rev (dropWhile is_space (rev (dropWhile is_space s)))"

fun split_words :: "string \<Rightarrow> string \<Rightarrow> string list" where
  "split_words cur [] = (if cur = [] then [] else [rev cur])"
| "split_words cur (c # cs) =
     (if is_space c then (if cur = [] then split_words [] cs else rev cur # split_words [] cs)
      else split_words (c # cur) cs)"

definition str_split :: "string \<Rightarrow> string list" where
  "str_split s = split_words [] s"

fun str_join :: "string \<Rightarrow> string list \<Rightarrow> string" where
  "str_join sep [] = []"
| "str_join sep [x] = x"
| "str_join sep (x # y # ys) = x @ sep @ str_join sep (y # ys)"

text \<open>\<open>s.rsplit('.', 1)[1]\<close>, read only when \<open>'.' in s\<close>: what follows the last dot.\<close>

definition rsplit_dot_last :: "string \<Rightarrow> string" where
  "rsplit_dot_last s = rev (takeWhile (\<lambda>c. c \<noteq> CHR ''.'') (rev s))"

text \<open>\<open>s.split(sep)\<close> for a one-character separator: the fields between the separators.\<close>

fun split_fields :: "char \<Rightarrow> string \<Rightarrow> string \<Rightarrow> string list" where
  "split_fields sep cur [] = [rev cur]"
| "split_fields sep cur (c # cs) =
     (if c = sep then rev cur # split_fields sep [] cs else split_fields sep (c # cur) cs)"

definition str_split_on :: "char \<Rightarrow> string \<Rightarrow> string list" where
  "str_split_on sep s = split_fields sep [] s"

text \<open>
  \<open>os.path.splitext\<close>: the extension starts at the last dot of the last path component,
  unless only dots precede it there.
\<close>

definition os_path_splitext :: "string \<Rightarrow> string \<times> string" where
  "os_path_splitext p =
     (let base = os_path_basename p;
          ext = rev (takeWhile (\<lambda>c. c \<noteq> CHR ''.'') (rev base));
          stem = take (length base - length ext - 1) base
      in if CHR ''.'' \<in> set base \<and> (\<exists>c \<in> set stem. c \<noteq> CHR ''.'')
         then (take (length p - length ext - 1) p, drop (length p - length ext - 1) p)
         else (p, []))"

section \<open>Decimal numbers: \<open>str(n)\<close> and \<open>int(s)\<close>\<close>

definition digit_char :: "nat \<Rightarrow> char" where
  "digit_char d = ascii_digits ! d"

definition digit_val :: "char \<Rightarrow> nat option" where
  "digit_val c = map_of (zip ascii_digits [0 ..< 10]) c"

fun str_nat :: "nat \<Rightarrow> string" where
  "str_nat n = (if n < 10 then [digit_char n] else str_nat (n div 10) @ [digit_char (n mod 10)])"

declare str_nat.simps [simp del]

definition str_int :: "int \<Rightarrow> string" where
  "str_int i = (if i < 0 then CHR ''-'' # str_nat (nat (- i)) else str_nat (nat i))"

text \<open>
  \<open>int(s)\<close> in base 10: white space around the literal is dropped, one sign may come
  first, then digits, where a single underscore may stand between two digits. Anything
  else raises \<open>ValueError\<close> (\<open>None\<close>). \<open>parse_digits acc prev s\<close> reads the rest of
  the literal; \<open>prev\<close> tells whether the character before was a digit.
\<close>

fun parse_digits :: "nat \<Rightarrow> bool \<Rightarrow> string \<Rightarrow> nat option" where
  "parse_digits acc prev [] = (if prev then Some acc else None)"
| "parse_digits acc prev (c # cs) =
     (if c = CHR ''_'' then (if prev \<and> cs \<noteq> [] then parse_digits acc False cs else None)
      else (case digit_val c of
              None \<Rightarrow> None
            | Some d \<Rightarrow> parse_digits (10 * acc + d) True cs))"

definition py_int :: "string \<Rightarrow> int option" where
  "py_int s =
     (case str_strip s of
        [] \<Rightarrow> None
      | c # cs \<Rightarrow>
          if c = CHR ''-'' then map_option (\<lambda>n. - int n) (parse_digits 0 False cs)
          else if c = CHR ''+'' then map_option int (parse_digits 0 False cs)
          else map_option int (parse_digits 0 False (c # cs)))"

section \<open>\<open>werkzeug.utils.secure_filename\<close>\<close>

text \<open>
  The library function every service passes file names through, on POSIX: characters
  outside ASCII are dropped (\<open>encode("ascii", "ignore")\<close>; the normalisation before it
  leaves ASCII text as it is), the path separator becomes a space, the words are joined
  with underscores, every character outside \<open>[A-Za-z0-9_.-]\<close> is removed, and dots and
  underscores are stripped from both ends.
\<close>

definition is_ascii :: "char \<Rightarrow> bool" where
  "is_ascii c = ((of_char c :: nat) < 128)"

definition filename_chars :: string where
  "filename_chars = ascii_uppercase @ ascii_lowercase @ ascii_digits @ ''_.-''"

definition secure_filename :: "string \<Rightarrow> string" where
  "secure_filename name =
     str_strip_chars ''._''
       (filter (\<lambda>c. c \<in> set filename_chars)
          (str_join ''_''
             (str_split (map (\<lambda>c. if c = CHR ''/'' then CHR '' '' else c)
                (filter is_ascii name)))))"

section \<open>Files: writing, reading, sizes, directories\<close>

text \<open>
  \<open>write_file\<close> is \<open>open(path, 'wb')\<close> followed by the write (also \<open>file.save\<close> and the
  libraries' own output): it replaces the file and logs the path. Intermediate directories
  are not tracked: a write fails on a refused path or on a directory.
  \<open>os.makedirs(path, exist_ok=True)\<close> accepts a directory that is already there.
  \<open>os.path.getsize\<close> is only ever asked about a path the caller has just written.
\<close>

definition write_file :: "world \<Rightarrow> string \<Rightarrow> string \<Rightarrow> os_error + world" where
  "write_file w p content =
     (if p \<in> set (denied w) then Inl PermissionError
      else if os_path_isdir w p then Inl IsADirectoryError
      else Inr (w\<lparr>entries := AList.update p (File content) (entries w),
                 written := written w @ [(p, content)]\<rparr>))"

definition read_file :: "world \<Rightarrow> string \<Rightarrow> os_error + string" where
  "read_file w p =
     (case lookup w p of
        None \<Rightarrow> Inl FileNotFoundError
      | Some Dir \<Rightarrow> Inl IsADirectoryError
      | Some (File c) \<Rightarrow> if p \<in> set (denied w) then Inl PermissionError else Inr c)"

definition os_path_getsize :: "world \<Rightarrow> string \<Rightarrow> os_error + nat" where
  "os_path_getsize w p =
     (case lookup w p of
        None \<Rightarrow> Inl FileNotFoundError
      | Some Dir \<Rightarrow> Inl IsADirectoryError
      | Some (File c) \<Rightarrow> Inr (length c))"

definition os_makedirs :: "world \<Rightarrow> string \<Rightarrow> os_error + world" where
  "os_makedirs w p =
     (case lookup w p of
        Some Dir \<Rightarrow> Inr w
      | Some (File _) \<Rightarrow> Inl FileExistsError
      | None \<Rightarrow>
          if p \<in> set (denied w) then Inl PermissionError
          else Inr (w\<lparr>entries := AList.update p Dir (entries w)\<rparr>))"

section \<open>Uploads and \<open>utils\<close>\<close>

text \<open>
  An upload is werkzeug's \<open>FileStorage\<close>: the client's file name and the bytes of the
  stream. Such an object is true when its file name is not empty. An optional argument
  that is \<open>None\<close> is the empty string here: the code only tests it with \<open>not\<close>.
  The identifier of a job is \<open>str(uuid.uuid4())\<close>; the services below take it as an
  argument, and \<open>is_uuid\<close> describes the strings that call returns.
\<close>

record upload =
  filename :: string
  stream :: string

definition ALLOWED_EXTENSIONS :: "string list" where
  "ALLOWED_EXTENSIONS = [''pdf'']"

definition MAX_CONTENT_LENGTH :: int where
  "MAX_CONTENT_LENGTH = 16 * 1024 * 1024"

definition default_UPLOAD_FOLDER :: string where
  "default_UPLOAD_FOLDER = ''uploads''"

definition allowed_file :: "string \<Rightarrow> bool" where
  "allowed_file fname =
     (CHR ''.'' \<in> set fname \<and> str_lower (rsplit_dot_last fname) \<in> set ALLOWED_EXTENSIONS)"

definition is_uuid :: "string \<Rightarrow> bool" where
  "is_uuid u =
     (length u = 36 \<and>
      (\<forall>i < 36. if i \<in> {8, 13, 18, 23} then u ! i = CHR ''-''
                else u ! i \<in> set ''0123456789abcdef''))"

definition create_temp_directory :: "world \<Rightarrow> string \<Rightarrow> string \<Rightarrow> os_error + (string \<times> world)" where
  "create_temp_directory w base_path unique_id =
     (let temp_dir = os_path_join base_path unique_id
      in case os_makedirs w temp_dir of
           Inl e \<Rightarrow> Inl e
         | Inr w' \<Rightarrow> Inr (temp_dir, w'))"

text \<open>
  The loops that write files return the world beside their result: when a write raises,
  the files written before it are there.
\<close>

fun save_uploaded_from :: "nat \<Rightarrow> world \<Rightarrow> upload list \<Rightarrow> string \<Rightarrow> (os_error + string list) \<times> world" where
  "save_uploaded_from i w [] temp_dir = (Inr [], w)"
| "save_uploaded_from i w (f # fs) temp_dir =
     (if filename f \<noteq> [] then
        (let temp_filename = ''temp_'' @ str_nat i @ ''_'' @ secure_filename (filename f);
             temp_filepath = os_path_join temp_dir temp_filename
         in case write_file w temp_filepath (stream f) of
              Inl e \<Rightarrow> (Inl e, w)
            | Inr w1 \<Rightarrow>
                (case save_uploaded_from (Suc i) w1 fs temp_dir of
                   (Inl e, w2) \<Rightarrow> (Inl e, w2)
                 | (Inr ps, w2) \<Rightarrow> (Inr (temp_filepath # ps), w2)))
      else save_uploaded_from (Suc i) w fs temp_dir)"

definition save_uploaded_files :: "world \<Rightarrow> upload list \<Rightarrow> string \<Rightarrow> (os_error + string list) \<times> world" where
  "save_uploaded_files w files temp_dir = save_uploaded_from 0 w files temp_dir"

definition validate_pdf_files :: "upload list \<Rightarrow> nat \<Rightarrow> string + upload list" where
  "validate_pdf_files files min_files =
     (if files = [] then Inl ''No files uploaded''
      else let valid_files = filter (\<lambda>f. filename f \<noteq> [] \<and> allowed_file (filename f)) files
           in if length valid_files < min_files
              then Inl (''At least '' @ str_nat min_files @ '' valid PDF files are required'')
              else Inr valid_files)"

definition secure_output_filename :: "string \<Rightarrow> string \<Rightarrow> string" where
  "secure_output_filename fname default_name =
     (let f1 = (if fname = [] then default_name else fname);
          f2 = (if \<not> endswith f1 ''.pdf'' then f1 @ ''.pdf'' else f1)
      in secure_filename f2)"

section \<open>The libraries\<close>

text \<open>
  What the services get from PyPDF2, PyMuPDF, Pillow, reportlab, python-docx, pdf2docx
  and \<open>zipfile\<close> is a parameter of the model: \<open>'p\<close> is the type of a PDF page and
  \<open>'f\<close> the type of Python's floats, with the float operations the code uses. A field of
  type \<open>option\<close> is \<open>None\<close> where the library raises. \<open>exc_str\<close> is \<open>str(e)\<close>.
  \<open>true_div\<close> is \<open>/\<close> on two integers; \<open>fmt_1f\<close> is the format \<open>:.1f\<close>.
  \<open>canvas_save\<close> gets the pages closed by \<open>showPage\<close> and the drawings of the page still
  open, each drawing an image with its position and size. \<open>set_listing\<close> is the order in
  which the interpreter iterates a set of strings.
\<close>

record ('p, 'f) env =
  exc_str :: "os_error \<Rightarrow> string"
  pdf_reader :: "string \<Rightarrow> 'p list option"
  pdf_writer :: "'p list \<Rightarrow> string"
  zip_writer :: "(string \<times> string) list \<Rightarrow> string"
  fitz_recompress :: "nat \<Rightarrow> nat \<Rightarrow> string \<Rightarrow> string option"
  pypdf_strip :: "string \<Rightarrow> string option"
  have_pdf2docx :: bool
  pdf2docx_convert :: "string \<Rightarrow> string option option"
  docx_render :: "string \<Rightarrow> string option"
  have_reportlab :: bool
  image_open :: "string \<Rightarrow> (nat \<times> nat) option"
  image_jpeg :: "string \<Rightarrow> string"
  canvas_save :: "(string \<times> 'f \<times> 'f \<times> 'f \<times> 'f) list list \<Rightarrow>
                  (string \<times> 'f \<times> 'f \<times> 'f \<times> 'f) list \<Rightarrow> string"
  set_listing :: "string list \<Rightarrow> string list"
  pil_save_pdf :: "string list \<Rightarrow> string"
  A4 :: "'f \<times> 'f"
  f_of_int :: "int \<Rightarrow> 'f"
  f_add :: "'f \<Rightarrow> 'f \<Rightarrow> 'f"
  f_sub :: "'f \<Rightarrow> 'f \<Rightarrow> 'f"
  f_mul :: "'f \<Rightarrow> 'f \<Rightarrow> 'f"
  f_div :: "'f \<Rightarrow> 'f \<Rightarrow> 'f"
  f_less :: "'f \<Rightarrow> 'f \<Rightarrow> bool"
  true_div :: "int \<Rightarrow> int \<Rightarrow> 'f"
  fmt_1f :: "'f \<Rightarrow> string"

text \<open>The result of a service: \<open>(False, message)\<close> or \<open>(True, payload)\<close>.\<close>

record payload =
  unique_id :: string
  out_filename :: string
  message :: string

section \<open>\<open>services/pdf_merger.py\<close>\<close>

fun merger_append_all :: "('p, 'f) env \<Rightarrow> world \<Rightarrow> string list \<Rightarrow> 'p list \<Rightarrow> os_error + 'p list" where
  "merger_append_all env w [] acc = Inr acc"
| "merger_append_all env w (t # ts) acc =
     (case read_file w t of
        Inl e \<Rightarrow> Inl e
      | Inr bytes \<Rightarrow>
          (case pdf_reader env bytes of
             None \<Rightarrow> Inl LibraryError
           | Some pages \<Rightarrow> merger_append_all env w ts (acc @ pages)))"

definition merge_pdf_files ::
  "('p, 'f) env \<Rightarrow> world \<Rightarrow> string list \<Rightarrow> string \<Rightarrow> string \<Rightarrow> (string + string) \<times> world" where
  "merge_pdf_files env w temp_files temp_dir output_filename =
     (case merger_append_all env w temp_files [] of
        Inl e \<Rightarrow> (Inl (''Error processing PDF file: '' @ exc_str env e), w)
      | Inr pages \<Rightarrow>
          (let output_path = os_path_join temp_dir output_filename
           in case write_file w output_path (pdf_writer env pages) of
                Inl e \<Rightarrow> (Inl (''Error during PDF merge: '' @ exc_str env e), w)
              | Inr w1 \<Rightarrow> (Inr output_path, w1)))"

definition merge_files ::
  "('p, 'f) env \<Rightarrow> world \<Rightarrow> string \<Rightarrow> string \<Rightarrow> upload list \<Rightarrow> string \<Rightarrow> (string + payload) \<times> world" where
  "merge_files env w upload_folder uid files output_filename =
     (case validate_pdf_files files 2 of
        Inl msg \<Rightarrow> (Inl msg, w)
      | Inr valid_files \<Rightarrow>
          (case create_temp_directory w upload_folder uid of
             Inl e \<Rightarrow> (Inl (''An error occurred during merge: '' @ exc_str env e), w)
           | Inr (temp_dir, w1) \<Rightarrow>
               (case save_uploaded_files w1 valid_files temp_dir of
                  (Inl e, w2) \<Rightarrow> (Inl (''An error occurred during merge: '' @ exc_str env e), w2)
                | (Inr temp_files, w2) \<Rightarrow>
                    (let out = secure_output_filename output_filename ''merged-document.pdf''
                     in case merge_pdf_files env w2 temp_files temp_dir out of
                          (Inr output_path, w3) \<Rightarrow>
                            (case cleanup_files w3 temp_files 0 of
                               Inl e \<Rightarrow> (Inl (''An error occurred during merge: '' @ exc_str env e), w3)
                             | Inr w4 \<Rightarrow>
                                 (Inr \<lparr>unique_id = uid, out_filename = out,
                                       message = ''PDF files merged successfully!''\<rparr>, w4))
                        | (Inl msg, w3) \<Rightarrow>
                            (case cleanup_files w3 (temp_files @ [temp_dir]) 0 of
                               Inl e \<Rightarrow> (Inl (''An error occurred during merge: '' @ exc_str env e), w3)
                             | Inr w4 \<Rightarrow> (Inl msg, w4))))))"

definition merger_get_file_path :: "string \<Rightarrow> string \<Rightarrow> string \<Rightarrow> string" where
  "merger_get_file_path upload_folder uid fname =
     os_path_join (os_path_join upload_folder uid) fname"

section \<open>\<open>services/pdf_splitter.py\<close>\<close>

record split_payload = payload +
  split_count :: nat

text \<open>
  The loop of \<open>_split_into_pages\<close>: one writer, one page, one file per page;
  \<open>page_num\<close> is the 0-based index of the first page of the list.
\<close>

fun split_pages_loop ::
  "('p, 'f) env \<Rightarrow> world \<Rightarrow> 'p list \<Rightarrow> nat \<Rightarrow> string \<Rightarrow> string \<Rightarrow> (os_error + string list) \<times> world" where
  "split_pages_loop env w [] page_num temp_dir output_filename = (Inr [], w)"
| "split_pages_loop env w (pg # pgs) page_num temp_dir output_filename =
     (let page_filename = output_filename @ ''-page-'' @ str_nat (page_num + 1) @ ''.pdf'';
          page_path = os_path_join temp_dir page_filename
      in case write_file w page_path (pdf_writer env [pg]) of
           Inl e \<Rightarrow> (Inl e, w)
         | Inr w1 \<Rightarrow>
             (case split_pages_loop env w1 pgs (Suc page_num) temp_dir output_filename of
                (Inl e, w2) \<Rightarrow> (Inl e, w2)
              | (Inr ps, w2) \<Rightarrow> (Inr (page_path # ps), w2)))"

definition split_into_pages ::
  "('p, 'f) env \<Rightarrow> world \<Rightarrow> string \<Rightarrow> string \<Rightarrow> string \<Rightarrow> (string + string list \<times> nat) \<times> world" where
  "split_into_pages env w input_file temp_dir output_filename =
     (case read_file w input_file of
        Inl e \<Rightarrow> (Inl (''Error splitting PDF into pages: '' @ exc_str env e), w)
      | Inr bytes \<Rightarrow>
          (case pdf_reader env bytes of
             None \<Rightarrow> (Inl (''Error splitting PDF into pages: '' @ exc_str env LibraryError), w)
           | Some pages \<Rightarrow>
               (case split_pages_loop env w pages 0 temp_dir output_filename of
                  (Inl e, w1) \<Rightarrow> (Inl (''Error splitting PDF into pages: '' @ exc_str env e), w1)
                | (Inr split_files, w1) \<Rightarrow> (Inr (split_files, length pages), w1))))"

text \<open>
  One token of \<open>_split_into_ranges\<close>, up to the name of its file: the message of the
  early return, or the 0-based indices of the pages added to the writer with the
  description that goes into the file name. A token with a dash must split into exactly
  two fields that are integers (the unpacking of \<open>map(int, ...)\<close> raises \<open>ValueError\<close>
  otherwise).
\<close>

definition parse_range :: "nat \<Rightarrow> string \<Rightarrow> string + nat list \<times> string" where
  "parse_range total_pages page_range =
     (if CHR ''-'' \<in> set page_range then
        (case map py_int (str_split_on CHR ''-'' page_range) of
           [Some a, Some b] \<Rightarrow>
             (let start = max 1 a; end = min (int total_pages) b
              in if start > end
                 then Inl (''Invalid range: '' @ page_range @ '' (start > end)'')
                 else Inr (filter (\<lambda>page_num. page_num < total_pages) [nat (start - 1) ..< nat end],
                           ''pages-'' @ str_int start @ ''-to-'' @ str_int end))
         | _ \<Rightarrow> Inl (''Invalid page range format: '' @ page_range))
      else
        (case py_int page_range of
           None \<Rightarrow> Inl (''Invalid page range format: '' @ page_range)
         | Some page_num \<Rightarrow>
             if page_num < 1 \<or> page_num > int total_pages
             then Inl (''Invalid page number: '' @ str_int page_num @ '' (valid range: 1-''
                        @ str_nat total_pages @ '')'')
             else Inr ([nat (page_num - 1)], ''page-'' @ str_int page_num)))"

fun split_ranges_loop ::
  "('p, 'f) env \<Rightarrow> world \<Rightarrow> 'p list \<Rightarrow> string list \<Rightarrow> string \<Rightarrow> string \<Rightarrow> (string + string list) \<times> world" where
  "split_ranges_loop env w pages [] temp_dir output_filename = (Inr [], w)"
| "split_ranges_loop env w pages (page_range # rest) temp_dir output_filename =
     (case parse_range (length pages) page_range of
        Inl msg \<Rightarrow> (Inl msg, w)
      | Inr (page_nums, range_desc) \<Rightarrow>
          (let range_filename = output_filename @ ''-'' @ range_desc @ ''.pdf'';
               range_path = os_path_join temp_dir range_filename
           in case write_file w range_path (pdf_writer env (map (\<lambda>n. pages ! n) page_nums)) of
                Inl e \<Rightarrow> (Inl (''Error splitting PDF into ranges: '' @ exc_str env e), w)
              | Inr w1 \<Rightarrow>
                  (case split_ranges_loop env w1 pages rest temp_dir output_filename of
                     (Inl msg, w2) \<Rightarrow> (Inl msg, w2)
                   | (Inr ps, w2) \<Rightarrow> (Inr (range_path # ps), w2))))"

definition split_into_ranges ::
  "('p, 'f) env \<Rightarrow> world \<Rightarrow> string \<Rightarrow> string \<Rightarrow> string \<Rightarrow> string list \<Rightarrow>
     (string + string list \<times> nat) \<times> world" where
  "split_into_ranges env w input_file temp_dir output_filename page_ranges =
     (if page_ranges = [] then (Inl ''No page ranges specified'', w)
      else
        (case read_file w input_file of
           Inl e \<Rightarrow> (Inl (''Error splitting PDF into ranges: '' @ exc_str env e), w)
         | Inr bytes \<Rightarrow>
             (case pdf_reader env bytes of
                None \<Rightarrow> (Inl (''Error splitting PDF into ranges: '' @ exc_str env LibraryError), w)
              | Some pages \<Rightarrow>
                  (case split_ranges_loop env w pages page_ranges temp_dir output_filename of
                     (Inl msg, w1) \<Rightarrow> (Inl msg, w1)
                   | (Inr split_files, w1) \<Rightarrow> (Inr (split_files, length split_files), w1)))))"

text \<open>
  \<open>_create_zip_file\<close>: opening the archive creates it; each member is read and stored
  under its base name; any error is logged and gives \<open>False\<close>.
\<close>

fun read_members :: "world \<Rightarrow> string list \<Rightarrow> os_error + (string \<times> string) list" where
  "read_members w [] = Inr []"
| "read_members w (p # ps) =
     (case read_file w p of
        Inl e \<Rightarrow> Inl e
      | Inr bytes \<Rightarrow>
          (case read_members w ps of
             Inl e \<Rightarrow> Inl e
           | Inr ms \<Rightarrow> Inr ((os_path_basename p, bytes) # ms)))"

definition create_zip_file :: "('p, 'f) env \<Rightarrow> world \<Rightarrow> string list \<Rightarrow> string \<Rightarrow> bool \<times> world" where
  "create_zip_file env w file_paths zip_path =
     (case write_file w zip_path (zip_writer env []) of
        Inl e \<Rightarrow> (False, w)
      | Inr w1 \<Rightarrow>
          (case read_members w1 file_paths of
             Inl e \<Rightarrow> (False, w1)
           | Inr members \<Rightarrow>
               (case write_file w1 zip_path (zip_writer env members) of
                  Inl e \<Rightarrow> (False, w1)
                | Inr w2 \<Rightarrow> (True, w2))))"

definition split_finish ::
  "('p, 'f) env \<Rightarrow> world \<Rightarrow> string \<Rightarrow> string \<Rightarrow> string list \<Rightarrow> string \<Rightarrow>
     (string + string list \<times> nat) \<Rightarrow> (string + split_payload) \<times> world" where
  "split_finish env w uid temp_dir temp_files out result =
     (case result of
        Inr (split_files, count) \<Rightarrow>
          (let zip_filename = out @ ''-split.zip'';
               zip_path = os_path_join temp_dir zip_filename
           in case create_zip_file env w split_files zip_path of
                (True, w1) \<Rightarrow>
                  (case cleanup_files w1 (temp_files @ split_files) 0 of
                     Inl e \<Rightarrow> (Inl (''An error occurred during split: '' @ exc_str env e), w1)
                   | Inr w2 \<Rightarrow>
                       (Inr \<lparr>unique_id = uid, out_filename = zip_filename,
                             message = ''PDF split successfully into '' @ str_nat count @ '' files!'',
                             split_count = count\<rparr>, w2))
              | (False, w1) \<Rightarrow>
                  (case cleanup_files w1 (temp_files @ split_files @ [temp_dir]) 0 of
                     Inl e \<Rightarrow> (Inl (''An error occurred during split: '' @ exc_str env e), w1)
                   | Inr w2 \<Rightarrow> (Inl ''Error creating ZIP file'', w2)))
      | Inl msg \<Rightarrow>
          (case cleanup_files w (temp_files @ [temp_dir]) 0 of
             Inl e \<Rightarrow> (Inl (''An error occurred during split: '' @ exc_str env e), w)
           | Inr w1 \<Rightarrow> (Inl msg, w1)))"

definition split_pdf ::
  "('p, 'f) env \<Rightarrow> world \<Rightarrow> string \<Rightarrow> string \<Rightarrow> upload \<Rightarrow> string \<Rightarrow> string list \<Rightarrow> string \<Rightarrow>
     (string + split_payload) \<times> world" where
  "split_pdf env w upload_folder uid file split_type page_ranges output_filename =
     (case validate_pdf_files [file] 1 of
        Inl msg \<Rightarrow> (Inl msg, w)
      | Inr [] \<Rightarrow> (Inl (''An error occurred during split: '' @ exc_str env IndexError), w)
      | Inr (valid_file # _) \<Rightarrow>
          (case create_temp_directory w upload_folder uid of
             Inl e \<Rightarrow> (Inl (''An error occurred during split: '' @ exc_str env e), w)
           | Inr (temp_dir, w1) \<Rightarrow>
               (case save_uploaded_files w1 [valid_file] temp_dir of
                  (Inl e, w2) \<Rightarrow> (Inl (''An error occurred during split: '' @ exc_str env e), w2)
                | (Inr [], w2) \<Rightarrow>
                    (Inl (''An error occurred during split: '' @ exc_str env IndexError), w2)
                | (Inr (input_file # others), w2) \<Rightarrow>
                    (let temp_files = input_file # others;
                         name = (if output_filename = []
                                 then fst (os_path_splitext (filename valid_file))
                                 else output_filename);
                         out = secure_output_filename name ''split-pdf''
                     in if split_type = ''pages'' then
                          (case split_into_pages env w2 input_file temp_dir out of
                             (result, w3) \<Rightarrow> split_finish env w3 uid temp_dir temp_files out result)
                        else if split_type = ''ranges'' then
                          (case split_into_ranges env w2 input_file temp_dir out page_ranges of
                             (result, w3) \<Rightarrow> split_finish env w3 uid temp_dir temp_files out result)
                        else (Inl ''Invalid split type specified'', w2)))))"

section \<open>\<open>services/pdf_compressor.py\<close>\<close>

text \<open>
  The compressor and the image service read their folder from \<open>config['default']\<close>, which
  is \<open>default_UPLOAD_FOLDER\<close>, and create no directory of their own.
\<close>

record path_payload = payload +
  file_path :: string

record 'f compress_payload = path_payload +
  original_size :: nat
  compressed_size :: nat
  compression_ratio :: 'f

definition compression_settings :: "(string \<times> nat \<times> nat) list" where
  "compression_settings = [(''low'', (90, 150)), (''medium'', (75, 120)), (''high'', (60, 100))]"

definition settings_for :: "string \<Rightarrow> nat \<times> nat" where
  "settings_for compression_level =
     (case map_of compression_settings compression_level of
        Some s \<Rightarrow> s
      | None \<Rightarrow> the (map_of compression_settings ''medium''))"

definition compress_with_advanced_method ::
  "('p, 'f) env \<Rightarrow> world \<Rightarrow> string \<Rightarrow> string \<Rightarrow> string \<Rightarrow> bool \<times> world" where
  "compress_with_advanced_method env w input_path output_path compression_level =
     (case settings_for compression_level of
        (quality, dpi) \<Rightarrow>
          (case read_file w input_path of
             Inl e \<Rightarrow> (False, w)
           | Inr bytes \<Rightarrow>
               (case fitz_recompress env quality dpi bytes of
                  None \<Rightarrow> (False, w)
                | Some out \<Rightarrow>
                    (case write_file w output_path out of
                       Inl e \<Rightarrow> (False, w)
                     | Inr w1 \<Rightarrow> (True, w1)))))"

definition compress_with_basic_method ::
  "('p, 'f) env \<Rightarrow> world \<Rightarrow> string \<Rightarrow> string \<Rightarrow> bool \<times> world" where
  "compress_with_basic_method env w input_path output_path =
     (case read_file w input_path of
        Inl e \<Rightarrow> (False, w)
      | Inr bytes \<Rightarrow>
          (case pypdf_strip env bytes of
             None \<Rightarrow> (False, w)
           | Some out \<Rightarrow>
               (case write_file w output_path out of
                  Inl e \<Rightarrow> (False, w)
                | Inr w1 \<Rightarrow> (True, w1))))"

definition compress_pdf_file ::
  "('p, 'f) env \<Rightarrow> world \<Rightarrow> string \<Rightarrow> string \<Rightarrow> string \<Rightarrow> bool \<times> world" where
  "compress_pdf_file env w input_path output_path compression_level =
     (case compress_with_advanced_method env w input_path output_path compression_level of
        (True, w1) \<Rightarrow> (True, w1)
      | (False, w1) \<Rightarrow> compress_with_basic_method env w1 input_path output_path)"

definition compress_report ::
  "('p, 'f) env \<Rightarrow> world \<Rightarrow> string \<Rightarrow> string \<Rightarrow> string \<Rightarrow> nat \<Rightarrow> (string + 'f compress_payload) \<times> world" where
  "compress_report env w uid out output_path orig =
     (case os_path_getsize w output_path of
        Inl e \<Rightarrow> (Inl (''Compression failed: '' @ exc_str env e), w)
      | Inr csize \<Rightarrow>
          if orig = 0 then (Inl (''Compression failed: '' @ exc_str env ZeroDivisionError), w)
          else
            (let ratio = f_mul env (true_div env (int orig - int csize) (int orig)) (f_of_int env 100)
             in (Inr \<lparr>unique_id = uid, out_filename = out,
                      message = ''PDF compressed successfully! Size reduced by ''
                                  @ fmt_1f env ratio @ ''%'',
                      file_path = output_path, original_size = orig, compressed_size = csize,
                      compression_ratio = ratio\<rparr>, w)))"

definition compress_pdf ::
  "('p, 'f) env \<Rightarrow> world \<Rightarrow> string \<Rightarrow> upload \<Rightarrow> string \<Rightarrow> string \<Rightarrow>
     (string + 'f compress_payload) \<times> world" where
  "compress_pdf env w uid file output_filename compression_level =
     (if filename file = [] then (Inl ''No file provided'', w)
      else if \<not> endswith (str_lower (filename file)) ''.pdf'' then (Inl ''Please select a PDF file'', w)
      else
        (let out0 = (if output_filename = [] \<or> str_strip output_filename = []
                     then fst (os_path_splitext (filename file)) @ ''_compressed.pdf''
                     else if \<not> endswith output_filename ''.pdf'' then output_filename @ ''.pdf''
                     else output_filename);
             out = secure_filename out0;
             temp_filename = ''temp_'' @ uid @ ''_'' @ secure_filename (filename file);
             temp_path = os_path_join default_UPLOAD_FOLDER temp_filename
         in case write_file w temp_path (stream file) of
              Inl e \<Rightarrow> (Inl (''Compression failed: '' @ exc_str env e), w)
            | Inr w1 \<Rightarrow>
                (case os_path_getsize w1 temp_path of
                   Inl e \<Rightarrow> (Inl (''Compression failed: '' @ exc_str env e), w1)
                 | Inr orig \<Rightarrow>
                     (let output_path = os_path_join default_UPLOAD_FOLDER (uid @ ''_'' @ out)
                      in case compress_pdf_file env w1 temp_path output_path compression_level of
                           (success, w2) \<Rightarrow>
                             (case (if os_path_exists w2 temp_path then os_remove w2 temp_path
                                    else Inr w2) of
                                Inl e \<Rightarrow> (Inl (''Compression failed: '' @ exc_str env e), w2)
                              | Inr w3 \<Rightarrow>
                                  if \<not> success then (Inl ''Failed to compress PDF'', w3)
                                  else compress_report env w3 uid out output_path orig)))))"

definition compressor_get_file_path :: "string \<Rightarrow> string \<Rightarrow> string" where
  "compressor_get_file_path uid fname =
     os_path_join default_UPLOAD_FOLDER (uid @ ''_'' @ secure_filename fname)"

section \<open>\<open>services/image_to_pdf.py\<close>\<close>

definition IMAGE_EXTENSIONS :: "string list" where
  "IMAGE_EXTENSIONS = [''jpg'', ''jpeg'', ''png'', ''gif'', ''bmp'', ''tiff'', ''webp'']"

definition MARGIN_SETTINGS :: "(string \<times> int) list" where
  "MARGIN_SETTINGS = [(''none'', 0), (''small'', 36), (''medium'', 72), (''large'', 144)]"

definition is_allowed_file :: "string \<Rightarrow> bool" where
  "is_allowed_file fname =
     (CHR ''.'' \<in> set fname \<and> str_lower (rsplit_dot_last fname) \<in> set IMAGE_EXTENSIONS)"

text \<open>\<open>min(a, b)\<close> on floats gives \<open>a\<close> unless \<open>b < a\<close>.\<close>

definition py_min :: "('p, 'f) env \<Rightarrow> 'f \<Rightarrow> 'f \<Rightarrow> 'f" where
  "py_min env a b = (if f_less env b a then b else a)"

text \<open>
  Where one image goes on its page: \<open>(x_pos, y_pos, final_width, final_height)\<close>. Dividing
  by a zero image dimension raises.
\<close>

definition image_placement ::
  "('p, 'f) env \<Rightarrow> int \<Rightarrow> nat \<times> nat \<Rightarrow> os_error + 'f \<times> 'f \<times> 'f \<times> 'f" where
  "image_placement env margin img_size =
     (case (A4 env, img_size) of
        ((page_width, page_height), (img_width, img_height)) \<Rightarrow>
          (let available_width = f_sub env page_width (f_of_int env (2 * margin));
               available_height = f_sub env page_height (f_of_int env (2 * margin))
           in if margin = 0 then Inr (f_of_int env 0, f_of_int env 0, page_width, page_height)
              else if img_width = 0 \<or> img_height = 0 then Inl ZeroDivisionError
              else
                (let width_ratio = f_div env available_width (f_of_int env (int img_width));
                     height_ratio = f_div env available_height (f_of_int env (int img_height));
                     scale_ratio = py_min env width_ratio height_ratio;
                     final_width = f_mul env (f_of_int env (int img_width)) scale_ratio;
                     final_height = f_mul env (f_of_int env (int img_height)) scale_ratio;
                     x_pos = f_add env (f_of_int env margin)
                               (f_div env (f_sub env available_width final_width) (f_of_int env 2));
                     y_pos = f_add env (f_of_int env margin)
                               (f_div env (f_sub env available_height final_height) (f_of_int env 2))
                 in Inr (x_pos, y_pos, final_width, final_height))))"

fun remove_existing :: "world \<Rightarrow> string list \<Rightarrow> (os_error + unit) \<times> world" where
  "remove_existing w [] = (Inr (), w)"
| "remove_existing w (p # ps) =
     (if os_path_exists w p then
        (case os_remove w p of
           Inl e \<Rightarrow> (Inl e, w)
         | Inr w1 \<Rightarrow> remove_existing w1 ps)
      else remove_existing w ps)"

text \<open>
  The loop of \<open>_convert_images_with_margins\<close>. The uploads of a request are distinct
  objects, so \<open>file != files[-1]\<close> holds exactly when more files follow. \<open>None\<close> is
  the \<open>return False\<close> of the inner handler or of the outer one.
\<close>

fun images_loop ::
  "('p, 'f) env \<Rightarrow> world \<Rightarrow> upload list \<Rightarrow> int \<Rightarrow> string \<Rightarrow> string list \<Rightarrow>
     (string \<times> 'f \<times> 'f \<times> 'f \<times> 'f) list list \<Rightarrow> (string \<times> 'f \<times> 'f \<times> 'f \<times> 'f) list \<Rightarrow>
     (string list \<times> (string \<times> 'f \<times> 'f \<times> 'f \<times> 'f) list list
        \<times> (string \<times> 'f \<times> 'f \<times> 'f \<times> 'f) list) option \<times> world" where
  "images_loop env w [] margin uid temp_files pages cur = (Some (temp_files, pages, cur), w)"
| "images_loop env w (f # rest) margin uid temp_files pages cur =
     (let temp_filename = ''temp_'' @ uid @ ''_'' @ secure_filename (filename f);
          temp_path = os_path_join default_UPLOAD_FOLDER temp_filename
      in case write_file w temp_path (stream f) of
           Inl e \<Rightarrow> (None, w)
         | Inr w1 \<Rightarrow>
             (let temp_files1 = temp_files @ [temp_path]
              in case (case read_file w1 temp_path of
                         Inl e \<Rightarrow> Inl e
                       | Inr bytes \<Rightarrow>
                           (case image_open env bytes of
                              None \<Rightarrow> Inl LibraryError
                            | Some img_size \<Rightarrow>
                                (case image_placement env margin img_size of
                                   Inl e \<Rightarrow> Inl e
                                 | Inr (x_pos, y_pos, final_width, final_height) \<Rightarrow>
                                     Inr (image_jpeg env bytes, x_pos, y_pos,
                                          final_width, final_height)))) of
                   Inl e \<Rightarrow> (None, snd (remove_existing w1 temp_files1))
                 | Inr drawing \<Rightarrow>
                     if rest \<noteq> []
                     then images_loop env w1 rest margin uid temp_files1 (pages @ [cur @ [drawing]]) []
                     else images_loop env w1 rest margin uid temp_files1 pages (cur @ [drawing])))"

fun simple_loop ::
  "('p, 'f) env \<Rightarrow> world \<Rightarrow> upload list \<Rightarrow> string \<Rightarrow> string list \<Rightarrow> string list \<Rightarrow>
     (string list \<times> string list) option \<times> world" where
  "simple_loop env w [] uid temp_files images = (Some (temp_files, images), w)"
| "simple_loop env w (f # rest) uid temp_files images =
     (let temp_filename = ''temp_'' @ uid @ ''_'' @ secure_filename (filename f);
          temp_path = os_path_join default_UPLOAD_FOLDER temp_filename
      in case write_file w temp_path (stream f) of
           Inl e \<Rightarrow> (None, w)
         | Inr w1 \<Rightarrow>
             (let temp_files1 = temp_files @ [temp_path]
              in case (case read_file w1 temp_path of
                         Inl e \<Rightarrow> Inl e
                       | Inr bytes \<Rightarrow>
                           (case image_open env bytes of
                              None \<Rightarrow> Inl LibraryError
                            | Some img_size \<Rightarrow> Inr bytes)) of
                   Inl e \<Rightarrow> (None, snd (remove_existing w1 temp_files1))
                 | Inr img \<Rightarrow> simple_loop env w1 rest uid temp_files1 (images @ [img])))"

definition convert_images_simple ::
  "('p, 'f) env \<Rightarrow> world \<Rightarrow> upload list \<Rightarrow> string \<Rightarrow> string \<Rightarrow> bool \<times> world" where
  "convert_images_simple env w files output_path uid =
     (case simple_loop env w files uid [] [] of
        (None, w1) \<Rightarrow> (False, w1)
      | (Some (temp_files, images), w1) \<Rightarrow>
          if images = [] then (False, snd (remove_existing w1 temp_files))
          else
            (case write_file w1 output_path (pil_save_pdf env images) of
               Inl e \<Rightarrow> (False, w1)
             | Inr w2 \<Rightarrow>
                 (case remove_existing w2 temp_files of
                    (Inl e, w3) \<Rightarrow> (False, w3)
                  | (Inr u, w3) \<Rightarrow> (True, w3))))"

definition convert_images_with_margins ::
  "('p, 'f) env \<Rightarrow> world \<Rightarrow> upload list \<Rightarrow> string \<Rightarrow> int \<Rightarrow> string \<Rightarrow> bool \<times> world" where
  "convert_images_with_margins env w files output_path margin uid =
     (if \<not> have_reportlab env then convert_images_simple env w files output_path uid
      else
        (case images_loop env w files margin uid [] [] [] of
           (None, w1) \<Rightarrow> (False, w1)
         | (Some (temp_files, pages, cur), w1) \<Rightarrow>
             (case write_file w1 output_path (canvas_save env pages cur) of
                Inl e \<Rightarrow> (False, w1)
              | Inr w2 \<Rightarrow>
                  (case remove_existing w2 temp_files of
                     (Inl e, w3) \<Rightarrow> (False, w3)
                   | (Inr u, w3) \<Rightarrow> (True, w3)))))"

definition convert_images_to_pdf ::
  "('p, 'f) env \<Rightarrow> world \<Rightarrow> string \<Rightarrow> upload list \<Rightarrow> string \<Rightarrow> string \<Rightarrow>
     (string + path_payload) \<times> world" where
  "convert_images_to_pdf env w uid files output_filename margin_size =
     (if files = [] then (Inl ''No files provided'', w)
      else
        (let valid_files = filter (\<lambda>f. filename f \<noteq> [] \<and> is_allowed_file (filename f)) files
         in if valid_files = []
            then (Inl (''No valid image files found. Supported formats: ''
                        @ str_join '', '' (set_listing env IMAGE_EXTENSIONS)), w)
            else
              (let out0 = (if output_filename = [] \<or> str_strip output_filename = []
                           then ''images-to-pdf-'' @ take 8 uid @ ''.pdf''
                           else if \<not> endswith output_filename ''.pdf'' then output_filename @ ''.pdf''
                           else output_filename);
                   margin_size1 = (if margin_size \<notin> set (map fst MARGIN_SETTINGS)
                                   then ''medium'' else margin_size);
                   margin = the (map_of MARGIN_SETTINGS margin_size1);
                   out = secure_filename out0;
                   output_path = os_path_join default_UPLOAD_FOLDER (uid @ ''_'' @ out)
               in case convert_images_with_margins env w valid_files output_path margin uid of
                    (False, w1) \<Rightarrow> (Inl ''Failed to process images'', w1)
                  | (True, w1) \<Rightarrow>
                      (Inr \<lparr>unique_id = uid, out_filename = out,
                            message = ''Successfully converted '' @ str_nat (length valid_files)
                                        @ '' images to PDF'',
                            file_path = output_path\<rparr>, w1))))"

definition image_get_file_path :: "string \<Rightarrow> string \<Rightarrow> string" where
  "image_get_file_path uid fname =
     os_path_join default_UPLOAD_FOLDER (uid @ ''_'' @ secure_filename fname)"

section \<open>\<open>services/word_to_pdf.py\<close>\<close>

text \<open>
  \<open>_validate_word_file\<close> measures the upload by seeking to the end of its stream.
  The rendering of paragraphs, headings and tables in \<open>_convert_docx_to_pdf\<close> is the
  work of python-docx and reportlab: one function of the environment, between reading the
  staged file and writing the result.
\<close>

definition validate_word_file :: "upload list \<Rightarrow> string + upload list" where
  "validate_word_file files =
     (case files of
        [] \<Rightarrow> Inl ''No files provided''
      | file # _ \<Rightarrow>
          if filename file = [] then Inl ''No file selected''
          else
            (let allowed_extensions = [''.docx'', ''.doc''];
                 file_ext = snd (os_path_splitext (str_lower (filename file)))
             in if file_ext \<notin> set allowed_extensions
                then Inl ''Invalid file type. Please upload a Word document (.docx or .doc)''
                else
                  (let file_size = int (length (stream file));
                       max_size = 16 * 1024 * 1024
                   in if file_size > max_size
                      then Inl ''File size too large. Maximum allowed size is 16MB.''
                      else Inr [file])))"

definition convert_docx_to_pdf ::
  "('p, 'f) env \<Rightarrow> world \<Rightarrow> string \<Rightarrow> string \<Rightarrow> string \<Rightarrow> (string + string) \<times> world" where
  "convert_docx_to_pdf env w input_file temp_dir output_filename =
     (case read_file w input_file of
        Inl e \<Rightarrow> (Inl (''Error converting Word to PDF: '' @ exc_str env e), w)
      | Inr bytes \<Rightarrow>
          (let output_path = os_path_join temp_dir output_filename
           in case docx_render env bytes of
                None \<Rightarrow> (Inl (''Error converting Word to PDF: '' @ exc_str env LibraryError), w)
              | Some pdf \<Rightarrow>
                  (case write_file w output_path pdf of
                     Inl e \<Rightarrow> (Inl (''Error converting Word to PDF: '' @ exc_str env e), w)
                   | Inr w1 \<Rightarrow> (Inr output_path, w1))))"

definition convert_word_to_pdf ::
  "('p, 'f) env \<Rightarrow> world \<Rightarrow> string \<Rightarrow> string \<Rightarrow> upload \<Rightarrow> string \<Rightarrow> (string + payload) \<times> world" where
  "convert_word_to_pdf env w upload_folder uid file output_filename =
     (case validate_word_file [file] of
        Inl msg \<Rightarrow> (Inl msg, w)
      | Inr [] \<Rightarrow> (Inl (''An error occurred during conversion: '' @ exc_str env IndexError), w)
      | Inr (valid_file # _) \<Rightarrow>
          (case create_temp_directory w upload_folder uid of
             Inl e \<Rightarrow> (Inl (''An error occurred during conversion: '' @ exc_str env e), w)
           | Inr (temp_dir, w1) \<Rightarrow>
               (case save_uploaded_files w1 [valid_file] temp_dir of
                  (Inl e, w2) \<Rightarrow> (Inl (''An error occurred during conversion: '' @ exc_str env e), w2)
                | (Inr [], w2) \<Rightarrow>
                    (Inl (''An error occurred during conversion: '' @ exc_str env IndexError), w2)
                | (Inr (input_file # others), w2) \<Rightarrow>
                    (let temp_files = input_file # others;
                         name = (if output_filename = []
                                 then fst (os_path_splitext (filename valid_file)) @ ''.pdf''
                                 else if \<not> endswith output_filename ''.pdf''
                                 then output_filename @ ''.pdf'' else output_filename);
                         out = secure_output_filename name ''word-to-pdf.pdf''
                     in case convert_docx_to_pdf env w2 input_file temp_dir out of
                          (Inr output_path, w3) \<Rightarrow>
                            (case cleanup_files w3 temp_files 0 of
                               Inl e \<Rightarrow>
                                 (Inl (''An error occurred during conversion: '' @ exc_str env e), w3)
                             | Inr w4 \<Rightarrow>
                                 (Inr \<lparr>unique_id = uid, out_filename = out,
                                       message = ''Word document converted to PDF successfully!''\<rparr>,
                                  w4))
                        | (Inl msg, w3) \<Rightarrow>
                            (case cleanup_files w3 (temp_files @ [temp_dir]) 0 of
                               Inl e \<Rightarrow>
                                 (Inl (''An error occurred during conversion: '' @ exc_str env e), w3)
                             | Inr w4 \<Rightarrow> (Inl msg, w4))))))"

definition word_get_file_path :: "string \<Rightarrow> string \<Rightarrow> string \<Rightarrow> string" where
  "word_get_file_path upload_folder uid fname =
     os_path_join (os_path_join upload_folder uid) fname"

section \<open>\<open>services/pdf_to_word.py\<close>\<close>

text \<open>
  \<open>pdf2docx_convert\<close> is \<open>None\<close> where the converter raises, \<open>Some None\<close> where it
  returns without having written the document.
\<close>

definition pdf2word_error :: "('p, 'f) env \<Rightarrow> os_error \<Rightarrow> string" where
  "pdf2word_error env e =
     (let error_msg = exc_str env e
      in if str_contains ''pdf2docx'' (str_lower error_msg)
         then ''PDF to Word conversion error: '' @ error_msg
                @ ''. The PDF might be password-protected or corrupted.''
         else ''Error during PDF to Word conversion: '' @ error_msg)"

definition convert_pdf_to_word ::
  "('p, 'f) env \<Rightarrow> world \<Rightarrow> string \<Rightarrow> string \<Rightarrow> string \<Rightarrow> (string + string) \<times> world" where
  "convert_pdf_to_word env w pdf_file_path temp_dir output_filename =
     (if \<not> have_pdf2docx env
      then (Inl ''PDF to Word conversion library is not installed. Please install pdf2docx.'', w)
      else
        (let output_path = os_path_join temp_dir output_filename
         in case read_file w pdf_file_path of
              Inl e \<Rightarrow> (Inl (pdf2word_error env e), w)
            | Inr bytes \<Rightarrow>
                (case pdf2docx_convert env bytes of
                   None \<Rightarrow> (Inl (pdf2word_error env LibraryError), w)
                 | Some produced \<Rightarrow>
                     (case (case produced of
                              None \<Rightarrow> Inr w
                            | Some docx \<Rightarrow> write_file w output_path docx) of
                        Inl e \<Rightarrow> (Inl (pdf2word_error env e), w)
                      | Inr w1 \<Rightarrow>
                          if \<not> os_path_exists w1 output_path
                          then (Inl ''Conversion failed: Output file was not created'', w1)
                          else (Inr output_path, w1)))))"

text \<open>The name of the produced document: sanitised, then forced to end in \<open>.docx\<close>.\<close>

definition docx_output_filename :: "string \<Rightarrow> string" where
  "docx_output_filename name =
     (let out1 = secure_output_filename name ''converted-document.docx''
      in if \<not> endswith out1 ''.docx'' then fst (os_path_splitext out1) @ ''.docx'' else out1)"

definition convert_file ::
  "('p, 'f) env \<Rightarrow> world \<Rightarrow> string \<Rightarrow> string \<Rightarrow> upload list \<Rightarrow> string \<Rightarrow> (string + payload) \<times> world" where
  "convert_file env w upload_folder uid files output_filename =
     (case validate_pdf_files files 1 of
        Inl msg \<Rightarrow> (Inl msg, w)
      | Inr valid_files \<Rightarrow>
          if length valid_files > 1 then (Inl ''Please select only one PDF file for conversion'', w)
          else
            (case create_temp_directory w upload_folder uid of
               Inl e \<Rightarrow> (Inl (''An error occurred during conversion: '' @ exc_str env e), w)
             | Inr (temp_dir, w1) \<Rightarrow>
                 (case save_uploaded_files w1 valid_files temp_dir of
                    (Inl e, w2) \<Rightarrow> (Inl (''An error occurred during conversion: '' @ exc_str env e), w2)
                  | (Inr [], w2) \<Rightarrow> (Inl ''Failed to save uploaded file'', w2)
                  | (Inr (pdf_file_path # others), w2) \<Rightarrow>
                      (let temp_files = pdf_file_path # others;
                           name = (if output_filename = []
                                   then (case valid_files of
                                           [] \<Rightarrow> ''converted-document''
                                         | f # _ \<Rightarrow>
                                             if filename f \<noteq> [] then fst (os_path_splitext (filename f))
                                             else ''converted-document'') @ ''.docx''
                                   else output_filename);
                           out = docx_output_filename name
                       in case convert_pdf_to_word env w2 pdf_file_path temp_dir out of
                            (Inr output_path, w3) \<Rightarrow>
                              (case cleanup_files w3 temp_files 0 of
                                 Inl e \<Rightarrow>
                                   (Inl (''An error occurred during conversion: '' @ exc_str env e), w3)
                               | Inr w4 \<Rightarrow>
                                   (Inr \<lparr>unique_id = uid, out_filename = out,
                                         message = ''PDF converted to Word successfully!''\<rparr>, w4))
                          | (Inl msg, w3) \<Rightarrow>
                              (case cleanup_files w3 (temp_files @ [temp_dir]) 0 of
                                 Inl e \<Rightarrow>
                                   (Inl (''An error occurred during conversion: '' @ exc_str env e), w3)
                               | Inr w4 \<Rightarrow> (Inl msg, w4))))))"

definition pdf2word_get_file_path :: "string \<Rightarrow> string \<Rightarrow> string \<Rightarrow> string" where
  "pdf2word_get_file_path upload_folder uid fname =
     os_path_join (os_path_join upload_folder uid) fname"

definition splitter_get_file_path :: "string \<Rightarrow> string \<Rightarrow> string \<Rightarrow> string" where
  "splitter_get_file_path upload_folder uid fname =
     os_path_join (os_path_join upload_folder uid) fname"

section \<open>\<open>routes/pdf_routes.py\<close>: the download\<close>

text \<open>
  \<open>download_file\<close> sanitises the file name of the URL, picks the service from the
  sanitised name and asks that service for the path. \<open>resolve_download\<close> is the route up
  to there; \<open>download_file\<close> goes on to the response: a redirect when nothing is at the
  path, the file otherwise, after \<open>cleanup_processed_file\<close> (the compressor and the image
  service start a thread that removes the file after 5 seconds; the others call
  \<open>cleanup_files\<close> on the file and its directory with the configured delay). When
  \<open>send_file\<close> finds the file gone, the handler of the route redirects.
\<close>

datatype service =
    PDFToWordService
  | ImageToPDFService
  | PDFCompressorService
  | PDFSplitterService
  | WordToPDFService
  | PDFMergerService

datatype response = Redirect string | SendFile string string string

definition select_service :: "string \<Rightarrow> service \<times> string \<times> string" where
  "select_service fname =
     (if endswith fname ''.docx''
      then (PDFToWordService,
            ''application/vnd.openxmlformats-officedocument.wordprocessingml.document'',
            ''main.pdf_to_word'')
      else if startswith fname ''images-to-pdf''
      then (ImageToPDFService, ''application/pdf'', ''main.image_to_pdf'')
      else if str_contains ''compressed'' fname
      then (PDFCompressorService, ''application/pdf'', ''main.compress_pdf'')
      else if str_contains ''split'' fname \<and> endswith fname ''.zip''
      then (PDFSplitterService, ''application/zip'', ''main.split_pdf'')
      else if startswith fname ''word-to-pdf'' \<or> str_contains ''word-to-pdf'' fname
      then (WordToPDFService, ''application/pdf'', ''main.word_to_pdf'')
      else (PDFMergerService, ''application/pdf'', ''main.merge_pdf''))"

definition get_file_path :: "string \<Rightarrow> service \<Rightarrow> string \<Rightarrow> string \<Rightarrow> string" where
  "get_file_path upload_folder svc uid fname =
     (case svc of
        PDFToWordService \<Rightarrow> pdf2word_get_file_path upload_folder uid fname
      | ImageToPDFService \<Rightarrow> image_get_file_path uid fname
      | PDFCompressorService \<Rightarrow> compressor_get_file_path uid fname
      | PDFSplitterService \<Rightarrow> splitter_get_file_path upload_folder uid fname
      | WordToPDFService \<Rightarrow> word_get_file_path upload_folder uid fname
      | PDFMergerService \<Rightarrow> merger_get_file_path upload_folder uid fname)"


definition cleanup_processed_file :: "world \<Rightarrow> service \<Rightarrow> int \<Rightarrow> string \<Rightarrow> os_error + world" where
  "cleanup_processed_file w svc cleanup_delay path =
     (if svc = ImageToPDFService \<or> svc = PDFCompressorService
      then Inr (w\<lparr>threads := threads w @ [(5, [path])]\<rparr>)
      else cleanup_files w [path, os_path_dirname path] cleanup_delay)"

definition download_file :: "world \<Rightarrow> string \<Rightarrow> int \<Rightarrow> string \<Rightarrow> string \<Rightarrow> response \<times> world" where
  "download_file w upload_folder cleanup_delay uid raw_filename =
     (let fname = secure_filename raw_filename
      in case select_service fname of
           (svc, mimetype, redirect_endpoint) \<Rightarrow>
             (let path = get_file_path upload_folder svc uid fname
              in if \<not> os_path_exists w path then (Redirect redirect_endpoint, w)
                 else
                   (case cleanup_processed_file w svc cleanup_delay path of
                      Inl e \<Rightarrow> (Redirect ''main.pdf_to_word'', w)
                    | Inr w1 \<Rightarrow>
                        if os_path_isfile w1 path then (SendFile path fname mimetype, w1)
                        else (Redirect ''main.pdf_to_word'', w1))))"

section \<open>A sample environment\<close>

text \<open>
  A small instance of the libraries, to run the services on examples: a PDF is the
  header \<open>%PDF\<close> followed by one character per page, a Word document starts with
  \<open>PK\<close>, compression keeps the header and every second page, floats are rationals.
\<close>

fun every_second :: "'a list \<Rightarrow> 'a list" where
  "every_second [] = []"
| "every_second [x] = [x]"
| "every_second (x # y # xs) = x # every_second xs"

definition sample_env :: "(char, rat) env" where
  "sample_env =
     \<lparr>exc_str = (\<lambda>e. ''error''),
      pdf_reader = (\<lambda>s. if prefix ''%PDF'' s then Some (drop 4 s) else None),
      pdf_writer = (\<lambda>ps. ''%PDF'' @ ps),
      zip_writer = (\<lambda>ms. ''PK'' @ concat (map (\<lambda>(n, c). n @ '':'' @ c @ '';'') ms)),
      fitz_recompress = (\<lambda>q d s. if prefix ''%PDF'' s then Some (''%PDF'' @ every_second (drop 4 s))
                                  else None),
      pypdf_strip = (\<lambda>s. if prefix ''%PDF'' s then Some s else None),
      have_pdf2docx = True,
      pdf2docx_convert = (\<lambda>s. if prefix ''%PDF'' s then Some (Some (''PK'' @ drop 4 s)) else None),
      docx_render = (\<lambda>s. if prefix ''PK'' s then Some (''%PDF'' @ drop 2 s) else None),
      have_reportlab = True,
      image_open = (\<lambda>s. if s = [] then None else Some (length s, 2)),
      image_jpeg = (\<lambda>s. s),
      canvas_save = (\<lambda>pages cur. ''%PDF'' @ replicate (length pages + (if cur = [] then 0 else 1)) CHR ''i''),
      set_listing = (\<lambda>xs. xs),
      pil_save_pdf = (\<lambda>imgs. ''%PDF'' @ replicate (length imgs) CHR ''i''),
      A4 = (75600 / 127, 106920 / 127),
      f_of_int = of_int,
      f_add = (+), f_sub = (-), f_mul = (*), f_div = (/), f_less = (<),
      true_div = (\<lambda>a b. of_int a / of_int b),
      fmt_1f = (\<lambda>r. str_int (floor r))\<rparr>"

definition empty_world :: world where
  "empty_world = \<lparr>entries = [], denied = [], written = [], threads = []\<rparr>"

definition sample_id :: string where
  "sample_id = ''123e4567-e89b-42d3-a456-426614174000''"

section \<open>The files an operation writes\<close>

text \<open>
  \<open>new_writes w w'\<close> are the paths written between the world \<open>w\<close> and the later world
  \<open>w'\<close>, staged copies and produced files alike; \<open>writes_within d w w'\<close> says that all of
  them are entries of the directory \<open>d\<close>.
\<close>

definition log_extends :: "world \<Rightarrow> world \<Rightarrow> bool" where
  "log_extends w w' = prefix (written w) (written w')"

definition new_writes :: "world \<Rightarrow> world \<Rightarrow> string list" where
  "new_writes w w' = map fst (drop (length (written w)) (written w'))"

definition writes_within :: "string \<Rightarrow> world \<Rightarrow> world \<Rightarrow> bool" where
  "writes_within d w w' =
     (log_extends w w' \<and> list_all (\<lambda>q. os_path_dirname q = d) (new_writes w w'))"

subsection \<open>Example runs\<close>

definition pdf_a :: upload where
  "pdf_a = \<lparr>filename = ''a.pdf'', stream = ''%PDFabcdef''\<rparr>"

definition pdf_b :: upload where
  "pdf_b = \<lparr>filename = ''../b c.PDF'', stream = ''%PDFz''\<rparr>"

definition docx_a :: upload where
  "docx_a = \<lparr>filename = ''report.docx'', stream = ''PKtext''\<rparr>"

definition png_a :: upload where
  "png_a = \<lparr>filename = ''scan 1.png'', stream = ''abcdef''\<rparr>"

definition jpg_b :: upload where
  "jpg_b = \<lparr>filename = ''photo.JPG'', stream = ''ab''\<rparr>"

definition merge_run :: "(string + payload) \<times> world" where
  "merge_run = merge_files sample_env empty_world ''uploads'' sample_id [pdf_a, pdf_b] ''out''"

definition split_run :: "(string + split_payload) \<times> world" where
  "split_run = split_pdf sample_env empty_world ''uploads'' sample_id pdf_a ''ranges''
                 [''1-3'', ''5''] []"

definition word_run :: "(string + payload) \<times> world" where
  "word_run = convert_word_to_pdf sample_env empty_world ''uploads'' sample_id docx_a []"

definition pdf2word_run :: "(string + payload) \<times> world" where
  "pdf2word_run = convert_file sample_env empty_world ''uploads'' sample_id [pdf_a] []"

definition compress_run :: "(string + rat compress_payload) \<times> world" where
  "compress_run = compress_pdf sample_env empty_world sample_id pdf_a [] ''medium''"

definition image_run :: "(string + path_payload) \<times> world" where
  "image_run = convert_images_to_pdf sample_env empty_world sample_id [png_a, jpg_b] [] ''medium''"

definition staged_world :: world where
  "staged_world =
     \<lparr>entries = [(''uploads/j1'', Dir), (''uploads/j1/temp_0_a.pdf'', File ''%PDFabcdef'')],
      denied = [], written = [], threads = []\<rparr>"

section \<open>Properties of \<open>cleanup_files\<close>\<close>

lemma cleanup_path_cases:
  "cleanup_path w p = Inr w' \<Longrightarrow>
     w' = w \<or> w' = w\<lparr>entries := AList.delete p (entries w)\<rparr>"
  by (auto simp: cleanup_path_def os_remove_def os_rmdir_def os_listdir_def
           split: if_splits option.splits node.splits sum.splits)













text \<open>
  Claim C2, as the code has it. \<open>cleanup_files\<close> with delay 0 on one path that is not
  a regular file never recurses: it removes the path only when it is a directory without
  entries that the system allows to list and remove; a directory that still has an entry
  stays, with everything in it; an absent path is left alone and the call returns normally.
\<close>

theorem cleanup_files_directory:
  assumes "\<not> os_path_isfile w d"
  shows "cleanup_files w [d] 0 =
           Inr (if os_path_isdir w d \<and> d \<notin> set (denied w) \<and> children w d = []
                then w\<lparr>entries := AList.delete d (entries w)\<rparr> else w) \<and>
         (\<not> os_path_exists w d \<longrightarrow> cleanup_files w [d] 0 = Inr w) \<and>
         (os_path_isdir w d \<and> children w d \<noteq> [] \<longrightarrow> cleanup_files w [d] 0 = Inr w)"
  using assms
  by (auto simp: cleanup_files_def cleanup_path_def os_path_exists_def os_path_isfile_def
        os_path_isdir_def os_listdir_def os_rmdir_def split: option.splits node.splits)

theorem cleanup_files_directory_witness:
  "\<not> os_path_isfile empty_dir_world ''uploads/j3'' \<and>
   cleanup_files empty_dir_world [''uploads/j3''] 0 =
     Inr (empty_dir_world\<lparr>entries := [(''uploads/other.pdf'', File ''%PDF'')]\<rparr>) \<and>
   \<not> os_path_exists empty_dir_world ''uploads/j9'' \<and>
   cleanup_files empty_dir_world [''uploads/j9''] 0 = Inr empty_dir_world \<and>
   os_path_isdir leftover_world ''uploads/j1'' \<and> children leftover_world ''uploads/j1'' \<noteq> [] \<and>
   cleanup_files leftover_world [''uploads/j1''] 0 = Inr leftover_world"
  using cleanup_files_directory [of empty_dir_world "''uploads/j3''"]
    cleanup_files_directory [of empty_dir_world "''uploads/j9''"]
    cleanup_files_directory [of leftover_world "''uploads/j1''"]
  by (simp add: empty_dir_world_def leftover_world_def os_path_isfile_def os_path_isdir_def
        os_path_exists_def lookup_def children_def os_path_dirname_def AList.delete_eq)

theorem cleanup_files_recursive_counterexample:
  "os_path_isdir leftover_world ''uploads/j1'' \<and>
   cleanup_files leftover_world [''uploads/j1''] 0 = Inr leftover_world \<and>
   os_path_exists leftover_world ''uploads/j1'' \<and>
   os_path_exists leftover_world ''uploads/j1/out.pdf''"
  by (simp add: leftover_world_def cleanup_files_def cleanup_path_def os_path_exists_def
        os_path_isfile_def os_path_isdir_def os_listdir_def lookup_def children_def
        os_path_dirname_def os_path_basename_def)

section \<open>Paths and sanitised names\<close>

lemma dropWhile_id: "xs = [] \<or> \<not> P (hd xs) \<Longrightarrow> dropWhile P xs = xs"
  by (cases xs) auto

lemma dropWhile_rev_id: "xs = [] \<or> \<not> P (last xs) \<Longrightarrow> dropWhile P (rev xs) = rev xs"
  by (rule dropWhile_id) (auto simp: hd_rev)

lemma set_str_strip_chars: "set (str_strip_chars cs s) \<subseteq> set s"
proof -
  have "set (dropWhile (\<lambda>c. c \<in> set cs) (rev (dropWhile (\<lambda>c. c \<in> set cs) s)))
          \<subseteq> set (rev (dropWhile (\<lambda>c. c \<in> set cs) s))"
    by (meson set_dropWhileD subsetI)
  also have "\<dots> \<subseteq> set s"
    using set_dropWhileD by fastforce
  finally show ?thesis by (simp add: str_strip_chars_def)
qed

lemma secure_filename_chars: "set (secure_filename s) \<subseteq> set filename_chars"
  unfolding secure_filename_def
  by (rule subset_trans [OF set_str_strip_chars]) auto

lemma slash_not_filename_char: "CHR ''/'' \<notin> set filename_chars"
  by (simp add: filename_chars_def ascii_uppercase_def ascii_lowercase_def ascii_digits_def)

lemma secure_filename_no_slash: "CHR ''/'' \<notin> set (secure_filename s)"
  using secure_filename_chars slash_not_filename_char by blast

lemma filename_chars_ascii: "\<forall>c \<in> set filename_chars. is_ascii c"
  by (simp add: filename_chars_def ascii_uppercase_def ascii_lowercase_def ascii_digits_def
        is_ascii_def)

lemma filename_chars_not_space: "\<forall>c \<in> set filename_chars. \<not> is_space c"
  by (simp add: filename_chars_def ascii_uppercase_def ascii_lowercase_def ascii_digits_def
        is_space_def)

lemma split_words_no_space:
  "\<forall>c \<in> set s. \<not> is_space c \<Longrightarrow>
   split_words cur s = (if cur = [] \<and> s = [] then [] else [rev cur @ s])"
  by (induction s arbitrary: cur) auto

lemma strip_ends:
  assumes "str_strip_chars cs x \<noteq> []"
  shows "hd (str_strip_chars cs x) \<notin> set cs \<and> last (str_strip_chars cs x) \<notin> set cs"
proof -
  let ?P = "\<lambda>c. c \<in> set cs"
  let ?u = "dropWhile ?P x"
  let ?v = "dropWhile ?P (rev ?u)"
  have t: "str_strip_chars cs x = rev ?v" by (simp add: str_strip_chars_def)
  with assms have v: "?v \<noteq> []" by simp
  then have hv: "\<not> ?P (hd ?v)" by (rule hd_dropWhile)
  have lastt: "last (rev ?v) = hd ?v" using v by (simp add: last_rev)
  have "rev ?u = takeWhile ?P (rev ?u) @ ?v" by simp
  then have "?u = rev ?v @ rev (takeWhile ?P (rev ?u))"
    by (metis rev_append rev_rev_ident)
  then have "hd ?u = hd (rev ?v)" using v by (metis hd_append2 rev_is_Nil_conv)
  moreover have "?u \<noteq> []"
    using v by (metis dropWhile.simps(1) rev.simps(1))
  then have "\<not> ?P (hd ?u)" by (rule hd_dropWhile)
  ultimately show ?thesis using hv lastt t by simp
qed

lemma strip_id:
  assumes "t = [] \<or> (hd t \<notin> set cs \<and> last t \<notin> set cs)"
  shows "str_strip_chars cs t = t"
proof (cases t)
  case Nil
  then show ?thesis by (simp add: str_strip_chars_def)
next
  case (Cons a as)
  with assms have h: "\<not> (hd t \<in> set cs)" and l: "\<not> (last t \<in> set cs)" by auto
  have 1: "dropWhile (\<lambda>c. c \<in> set cs) t = t" using h by (intro dropWhile_id) simp
  have 2: "dropWhile (\<lambda>c. c \<in> set cs) (rev t) = rev t" using l by (intro dropWhile_rev_id) simp
  show ?thesis by (simp add: str_strip_chars_def 1 2)
qed

lemma secure_filename_idem: "secure_filename (secure_filename s) = secure_filename s"
proof -
  let ?t = "secure_filename s"
  have chars: "\<forall>c \<in> set ?t. c \<in> set filename_chars"
    using secure_filename_chars by blast
  have a: "filter is_ascii ?t = ?t"
    using chars filename_chars_ascii by (simp add: filter_id_conv)
  have b: "map (\<lambda>c. if c = CHR ''/'' then CHR '' '' else c) ?t = ?t"
    using secure_filename_no_slash [of s] by (intro map_idI) auto
  have nosp: "\<forall>c \<in> set ?t. \<not> is_space c"
    using chars filename_chars_not_space by blast
  have c: "str_join ''_'' (str_split ?t) = ?t"
    using split_words_no_space [OF nosp, of "[]"] by (simp add: str_split_def)
  have d: "filter (\<lambda>c. c \<in> set filename_chars) ?t = ?t"
    using chars by (simp add: filter_id_conv)
  have ends: "?t = [] \<or> (hd ?t \<notin> set ''._'' \<and> last ?t \<notin> set ''._'')"
    using strip_ends [of "''._''"] unfolding secure_filename_def by blast
  have e: "str_strip_chars ''._'' ?t = ?t"
    using ends by (rule strip_id)
  have "secure_filename ?t =
          str_strip_chars ''._'' (filter (\<lambda>c. c \<in> set filename_chars)
            (str_join ''_'' (str_split (map (\<lambda>c. if c = CHR ''/'' then CHR '' '' else c)
               (filter is_ascii ?t)))))"
    by (simp only: secure_filename_def [of ?t])
  also have "\<dots> = ?t" by (simp only: a b c d e)
  finally show ?thesis .
qed

lemma dirname_join:
  assumes "d \<noteq> []" and "last d \<noteq> CHR ''/''" and "CHR ''/'' \<notin> set n"
  shows "os_path_dirname (os_path_join d n) = d"
proof -
  have hdn: "n \<noteq> [] \<Longrightarrow> hd n \<noteq> CHR ''/''" using assms(3) by (cases n) auto
  have j: "os_path_join d n = d @ ''/'' @ n"
    using assms(1,2) hdn by (auto simp: os_path_join_def)
  have dw: "dropWhile (\<lambda>c. c \<noteq> CHR ''/'') (rev n @ CHR ''/'' # rev d) = CHR ''/'' # rev d"
    using assms(3) by (subst dropWhile_append2) auto
  have head: "rev (dropWhile (\<lambda>c. c \<noteq> CHR ''/'') (rev (d @ ''/'' @ n))) = d @ ''/''"
    using dw by simp
  have nrep: "d @ ''/'' \<noteq> replicate (length (d @ ''/'')) CHR ''/''"
  proof
    assume "d @ ''/'' = replicate (length (d @ ''/'')) CHR ''/''"
    then have "set (d @ ''/'') \<subseteq> {CHR ''/''}" by (metis set_replicate_conv_if empty_subsetI subset_refl)
    then have "last d = CHR ''/''" using assms(1) by (metis last_in_set insert_subset le_sup_iff set_append singletonD subset_iff)
    with assms(2) show False by simp
  qed
  have strip: "dropWhile (\<lambda>c. c = CHR ''/'') (rev d) = rev d"
    using assms(2) by (intro dropWhile_rev_id) simp
  show ?thesis
    unfolding j os_path_dirname_def head Let_def using nrep strip by simp
qed




section \<open>Where an operation puts its files\<close>

lemma writes_within_same: "written w' = written w \<Longrightarrow> writes_within d w w'"
  by (simp add: writes_within_def log_extends_def new_writes_def)

lemma new_writes_trans:
  assumes "log_extends w w1" and "log_extends w1 w2"
  shows "log_extends w w2 \<and> new_writes w w2 = new_writes w w1 @ new_writes w1 w2"
proof -
  from assms obtain xs ys where
    1: "written w1 = written w @ xs" and 2: "written w2 = written w1 @ ys"
    by (auto simp: log_extends_def prefix_def)
  then show ?thesis
    by (simp add: log_extends_def new_writes_def)
qed

lemma writes_within_trans:
  "writes_within d w w1 \<Longrightarrow> writes_within d w1 w2 \<Longrightarrow> writes_within d w w2"
  using new_writes_trans [of w w1 w2] by (auto simp: writes_within_def)

lemma new_writes_mono:
  "log_extends w w1 \<Longrightarrow> log_extends w1 w2 \<Longrightarrow>
   set (new_writes w w1) \<union> set (new_writes w1 w2) = set (new_writes w w2)"
  using new_writes_trans [of w w1 w2] by auto

lemma write_file_log:
  "write_file w p c = Inr w' \<Longrightarrow> written w' = written w @ [(p, c)]"
  by (auto simp: write_file_def split: if_splits)

lemma write_file_within:
  "write_file w p c = Inr w' \<Longrightarrow> os_path_dirname p = d \<Longrightarrow>
   writes_within d w w' \<and> new_writes w w' = [p]"
  by (drule write_file_log) (simp add: writes_within_def log_extends_def new_writes_def)

lemma cleanup_path_written: "cleanup_path w p = Inr w' \<Longrightarrow> written w' = written w"
  by (drule cleanup_path_cases) auto

lemma delayed_cleanup_written: "delayed_cleanup w ps = Inr w' \<Longrightarrow> written w' = written w"
proof (induction ps arbitrary: w)
  case Nil
  then show ?case by simp
next
  case (Cons p ps)
  then show ?case
    by (cases "cleanup_path w p") (auto dest: cleanup_path_written)
qed

lemma cleanup_files_written: "cleanup_files w ps delay = Inr w' \<Longrightarrow> written w' = written w"
  by (auto simp: cleanup_files_def dest: delayed_cleanup_written split: if_splits)

lemma os_remove_written: "os_remove w p = Inr w' \<Longrightarrow> written w' = written w"
  by (auto simp: os_remove_def split: option.splits node.splits if_splits)

lemma os_makedirs_written: "os_makedirs w p = Inr w' \<Longrightarrow> written w' = written w"
  by (auto simp: os_makedirs_def split: option.splits node.splits if_splits)

lemma create_temp_directory_written:
  "create_temp_directory w base u = Inr (d, w') \<Longrightarrow>
   written w' = written w \<and> d = os_path_join base u"
  by (auto simp: create_temp_directory_def Let_def dest: os_makedirs_written split: sum.splits)

lemma remove_existing_written: "remove_existing w ps = (r, w') \<Longrightarrow> written w' = written w"
proof (induction ps arbitrary: w)
  case Nil
  then show ?case by simp
next
  case (Cons p ps)
  then show ?case
    by (auto dest: os_remove_written split: if_splits sum.splits)
qed

lemma digit_char_digit: "n < 10 \<Longrightarrow> digit_char n \<in> set ascii_digits"
  unfolding digit_char_def by (rule nth_mem) (simp add: ascii_digits_def)

lemma str_nat_digits: "set (str_nat n) \<subseteq> set ascii_digits"
proof (induction n rule: str_nat.induct)
  case (1 n)
  show ?case
  proof (cases "n < 10")
    case True
    then show ?thesis using digit_char_digit by (subst str_nat.simps) simp
  next
    case False
    have "n mod 10 < 10" by simp
    then have "digit_char (n mod 10) \<in> set ascii_digits" by (rule digit_char_digit)
    with False 1 show ?thesis by (subst str_nat.simps) simp
  qed
qed

lemma str_nat_no_slash: "CHR ''/'' \<notin> set (str_nat n)"
proof -
  have "CHR ''/'' \<notin> set ascii_digits" by (simp add: ascii_digits_def)
  then show ?thesis using str_nat_digits [of n] by blast
qed

lemma is_uuid_chars:
  assumes "is_uuid u"
  shows "u \<noteq> [] \<and> CHR ''/'' \<notin> set u"
proof -
  from assms have len: "length u = 36"
    and each: "\<And>i. i < 36 \<Longrightarrow> u ! i = CHR ''-'' \<or> u ! i \<in> set ''0123456789abcdef''"
    by (auto simp: is_uuid_def split: if_splits)
  have "c \<noteq> CHR ''/''" if "c \<in> set u" for c
  proof -
    from that obtain i where "i < length u" "u ! i = c" by (auto simp: in_set_conv_nth)
    with len each [of i] show ?thesis by auto
  qed
  with len show ?thesis by auto
qed

lemma job_dir_ok:
  assumes "is_uuid u"
  shows "os_path_join base u \<noteq> [] \<and> last (os_path_join base u) \<noteq> CHR ''/''"
proof -
  from is_uuid_chars [OF assms] have ne: "u \<noteq> []" and ns: "CHR ''/'' \<notin> set u" by auto
  then have "last u \<noteq> CHR ''/''" using last_in_set by metis
  moreover have "hd u \<noteq> CHR ''/''" using ne ns hd_in_set by metis
  ultimately show ?thesis using ne by (auto simp: os_path_join_def)
qed

lemma save_uploaded_from_within:
  assumes "d \<noteq> []" and "last d \<noteq> CHR ''/''"
  shows "save_uploaded_from i w fs d = (r, w') \<Longrightarrow> writes_within d w w'"
proof (induction fs arbitrary: i w r w')
  case Nil
  then show ?case by (simp add: writes_within_same)
next
  case (Cons f fs)
  show ?case
  proof (cases "filename f = []")
    case True
    with Cons show ?thesis by simp
  next
    case False
    let ?n = "''temp_'' @ str_nat i @ ''_'' @ secure_filename (filename f)"
    let ?p = "os_path_join d ?n"
    have "CHR ''/'' \<notin> set ?n"
      using str_nat_no_slash secure_filename_no_slash by simp
    then have dn: "os_path_dirname ?p = d" using assms by (intro dirname_join)
    show ?thesis
    proof (cases "write_file w ?p (stream f)")
      case (Inl e)
      with Cons.prems False show ?thesis by (simp add: writes_within_same)
    next
      case (Inr w1)
      then have a: "writes_within d w w1" using dn write_file_within by blast
      obtain r2 w2 where rec: "save_uploaded_from (Suc i) w1 fs d = (r2, w2)"
        by (cases "save_uploaded_from (Suc i) w1 fs d")
      then have b: "writes_within d w1 w2" by (rule Cons.IH)
      from Cons.prems False Inr rec have "w' = w2"
        by (auto split: sum.splits)
      with a b show ?thesis using writes_within_trans by blast
    qed
  qed
qed

lemma save_uploaded_files_within:
  assumes "d \<noteq> []" and "last d \<noteq> CHR ''/''" and "save_uploaded_files w fs d = (r, w')"
  shows "writes_within d w w'"
  using assms(3) unfolding save_uploaded_files_def
  by (rule save_uploaded_from_within [OF assms(1,2)])

lemma merge_pdf_files_within:
  assumes "d \<noteq> []" and "last d \<noteq> CHR ''/''" and "CHR ''/'' \<notin> set out"
    and "merge_pdf_files env w ts d out = (r, w')"
  shows "writes_within d w w' \<and> (\<forall>p. r = Inr p \<longrightarrow> p = os_path_join d out \<and> p \<in> set (new_writes w w'))"
proof -
  have dn: "os_path_dirname (os_path_join d out) = d" using assms(1-3) by (intro dirname_join)
  show ?thesis
    using assms(4) write_file_within [OF _ dn]
    by (auto simp: merge_pdf_files_def Let_def writes_within_same split: sum.splits)
qed

lemma merge_files_success:
  assumes "merge_files env w folder uid files output_filename = (Inr p, w')"
  shows "\<exists>valid d w1 ts w2 path w3.
           create_temp_directory w folder uid = Inr (d, w1) \<and>
           save_uploaded_files w1 valid d = (Inr ts, w2) \<and>
           merge_pdf_files env w2 ts d (secure_output_filename output_filename ''merged-document.pdf'')
             = (Inr path, w3) \<and>
           cleanup_files w3 ts 0 = Inr w' \<and>
           unique_id p = uid \<and>
           out_filename p = secure_output_filename output_filename ''merged-document.pdf''"
  using assms
  by (auto simp: merge_files_def Let_def split: sum.splits prod.splits) blast

lemma secure_output_filename_no_slash: "CHR ''/'' \<notin> set (secure_output_filename a b)"
  by (simp add: secure_output_filename_def Let_def secure_filename_no_slash)

lemma merge_files_in_job_dir:
  assumes "is_uuid uid"
    and "merge_files env w folder uid files output_filename = (Inr p, w')"
  shows "list_all (\<lambda>q. os_path_dirname q = os_path_join folder uid) (new_writes w w') \<and>
         merger_get_file_path folder (unique_id p) (out_filename p) \<in> set (new_writes w w')"
proof -
  let ?out = "secure_output_filename output_filename ''merged-document.pdf''"
  from merge_files_success [OF assms(2)] obtain valid d w1 ts w2 path w3 where
    c: "create_temp_directory w folder uid = Inr (d, w1)" and
    s: "save_uploaded_files w1 valid d = (Inr ts, w2)" and
    m: "merge_pdf_files env w2 ts d ?out = (Inr path, w3)" and
    cl: "cleanup_files w3 ts 0 = Inr w'" and
    p: "unique_id p = uid" "out_filename p = ?out"
    by blast
  from c have d: "d = os_path_join folder uid" and w1: "written w1 = written w"
    using create_temp_directory_written by blast+
  have dok: "d \<noteq> []" "last d \<noteq> CHR ''/''" using job_dir_ok [OF assms(1)] d by auto
  have a: "writes_within d w w1" using w1 by (rule writes_within_same)
  have b: "writes_within d w1 w2"
    using dok s by (rule save_uploaded_files_within)
  have mm: "writes_within d w2 w3" "path = os_path_join d ?out" "path \<in> set (new_writes w2 w3)"
    using merge_pdf_files_within [OF dok secure_output_filename_no_slash m] by auto
  have e: "writes_within d w3 w'" using cl cleanup_files_written writes_within_same by blast
  have all: "writes_within d w w'"
    using a b mm(1) e writes_within_trans by blast
  have "writes_within d w w2" using a b writes_within_trans by blast
  then have "path \<in> set (new_writes w w3)"
    using mm(1,3) new_writes_mono [of w w2 w3] by (auto simp: writes_within_def)
  moreover have "writes_within d w w3" using a b mm(1) writes_within_trans by blast
  ultimately have "path \<in> set (new_writes w w')"
    using e new_writes_mono [of w w3 w'] by (auto simp: writes_within_def)
  then show ?thesis
    using all p mm(2) d by (simp add: writes_within_def merger_get_file_path_def)
qed


lemma writes_within_trans_mem:
  assumes "writes_within d w w1" and "writes_within d w1 w2"
  shows "set (new_writes w w1) \<subseteq> set (new_writes w w2)"
    and "set (new_writes w1 w2) \<subseteq> set (new_writes w w2)"
  using assms new_writes_mono [of w w1 w2] by (auto simp: writes_within_def)

lemma str_int_no_slash: "CHR ''/'' \<notin> set (str_int i)"
  using str_nat_no_slash by (simp add: str_int_def)

lemma parse_range_desc:
  "parse_range n t = Inr (idx, desc) \<Longrightarrow> CHR ''/'' \<notin> set desc"
  using str_int_no_slash
  by (auto simp: parse_range_def Let_def split: if_splits list.splits option.splits)

lemma split_pages_loop_within:
  assumes "d \<noteq> []" and "last d \<noteq> CHR ''/''" and "CHR ''/'' \<notin> set out"
  shows "split_pages_loop env w pgs k d out = (r, w') \<Longrightarrow> writes_within d w w'"
proof (induction pgs arbitrary: k w r w')
  case Nil
  then show ?case by (simp add: writes_within_same)
next
  case (Cons pg pgs)
  let ?n = "out @ ''-page-'' @ str_nat (k + 1) @ ''.pdf''"
  let ?p = "os_path_join d ?n"
  have "CHR ''/'' \<notin> set ?n" using assms(3) str_nat_no_slash by simp
  then have dn: "os_path_dirname ?p = d" using assms(1,2) by (intro dirname_join)
  show ?case
  proof (cases "write_file w ?p (pdf_writer env [pg])")
    case (Inl e)
    with Cons.prems show ?thesis by (simp add: writes_within_same)
  next
    case (Inr w1)
    then have a: "writes_within d w w1" using dn write_file_within by blast
    obtain r2 w2 where rec: "split_pages_loop env w1 pgs (Suc k) d out = (r2, w2)"
      by (cases "split_pages_loop env w1 pgs (Suc k) d out")
    then have b: "writes_within d w1 w2" by (rule Cons.IH)
    from Cons.prems Inr rec have "w' = w2" by (auto split: sum.splits)
    with a b show ?thesis using writes_within_trans by blast
  qed
qed

lemma split_ranges_loop_within:
  assumes "d \<noteq> []" and "last d \<noteq> CHR ''/''" and "CHR ''/'' \<notin> set out"
  shows "split_ranges_loop env w pages toks d out = (r, w') \<Longrightarrow> writes_within d w w'"
proof (induction toks arbitrary: w r w')
  case Nil
  then show ?case by (simp add: writes_within_same)
next
  case (Cons t toks)
  show ?case
  proof (cases "parse_range (length pages) t")
    case (Inl msg)
    with Cons.prems show ?thesis by (simp add: writes_within_same)
  next
    case (Inr pr)
    obtain idx desc where pr: "pr = (idx, desc)" by (cases pr)
    let ?n = "out @ ''-'' @ desc @ ''.pdf''"
    let ?p = "os_path_join d ?n"
    have "CHR ''/'' \<notin> set desc" using Inr pr parse_range_desc by blast
    then have "CHR ''/'' \<notin> set ?n" using assms(3) by simp
    then have dn: "os_path_dirname ?p = d" using assms(1,2) by (intro dirname_join)
    show ?thesis
    proof (cases "write_file w ?p (pdf_writer env (map (\<lambda>n. pages ! n) idx))")
      case (Inl e)
      with Cons.prems Inr pr show ?thesis by (simp add: writes_within_same)
    next
      case w1: (Inr w1)
      then have a: "writes_within d w w1" using dn write_file_within by blast
      obtain r2 w2 where rec: "split_ranges_loop env w1 pages toks d out = (r2, w2)"
        by (cases "split_ranges_loop env w1 pages toks d out")
      then have b: "writes_within d w1 w2" by (rule Cons.IH)
      from Cons.prems Inr pr w1 rec have "w' = w2" by (auto split: sum.splits)
      with a b show ?thesis using writes_within_trans by blast
    qed
  qed
qed

lemma split_into_pages_within:
  assumes "d \<noteq> []" and "last d \<noteq> CHR ''/''" and "CHR ''/'' \<notin> set out"
    and "split_into_pages env w input d out = (r, w')"
  shows "writes_within d w w'"
  using assms(4) split_pages_loop_within [OF assms(1-3)]
  by (auto simp: split_into_pages_def writes_within_same split: sum.splits option.splits prod.splits)

lemma split_into_ranges_within:
  assumes "d \<noteq> []" and "last d \<noteq> CHR ''/''" and "CHR ''/'' \<notin> set out"
    and "split_into_ranges env w input d out toks = (r, w')"
  shows "writes_within d w w'"
  using assms(4) split_ranges_loop_within [OF assms(1-3)]
  by (auto simp: split_into_ranges_def writes_within_same
           split: if_splits sum.splits option.splits prod.splits)

lemma create_zip_file_within:
  assumes "os_path_dirname zp = d" and "create_zip_file env w fps zp = (ok, w')"
  shows "writes_within d w w' \<and> (ok \<longrightarrow> zp \<in> set (new_writes w w'))"
proof (cases "write_file w zp (zip_writer env [])")
  case (Inl e)
  with assms(2) show ?thesis by (auto simp: create_zip_file_def writes_within_same)
next
  case (Inr w1)
  then have a: "writes_within d w w1" "new_writes w w1 = [zp]"
    using write_file_within [OF _ assms(1)] by blast+
  show ?thesis
  proof (cases "read_members w1 fps")
    case (Inl e)
    with assms(2) Inr a show ?thesis by (auto simp: create_zip_file_def)
  next
    case ms: (Inr ms)
    show ?thesis
    proof (cases "write_file w1 zp (zip_writer env ms)")
      case (Inl e)
      with assms(2) Inr ms a show ?thesis by (auto simp: create_zip_file_def)
    next
      case w2: (Inr w2)
      then have b: "writes_within d w1 w2" using write_file_within [OF _ assms(1)] by blast
      from assms(2) Inr ms w2 have "w' = w2" by (auto simp: create_zip_file_def)
      with a b show ?thesis
        using writes_within_trans writes_within_trans_mem(1) [OF a(1) b] by auto
    qed
  qed
qed

lemma split_finish_within:
  assumes "d \<noteq> []" and "last d \<noteq> CHR ''/''" and "CHR ''/'' \<notin> set out"
    and "split_finish env w uid d ts out res = (r, w')"
  shows "writes_within d w w' \<and>
         (\<forall>p. r = Inr p \<longrightarrow> unique_id p = uid \<and> os_path_join d (out_filename p) \<in> set (new_writes w w'))"
proof (cases res)
  case (Inl msg)
  with assms(4) show ?thesis
    by (auto simp: split_finish_def dest!: cleanup_files_written intro: writes_within_same
             split: sum.splits)
next
  case (Inr fc)
  obtain sf cnt where fc: "fc = (sf, cnt)" by (cases fc)
  let ?zp = "os_path_join d (out @ ''-split.zip'')"
  have "CHR ''/'' \<notin> set (out @ ''-split.zip'')" using assms(3) by simp
  then have dn: "os_path_dirname ?zp = d" using assms(1,2) by (intro dirname_join)
  obtain ok w1 where z: "create_zip_file env w sf ?zp = (ok, w1)"
    by (cases "create_zip_file env w sf ?zp")
  from create_zip_file_within [OF dn z]
  have a: "writes_within d w w1" and mem: "ok \<Longrightarrow> ?zp \<in> set (new_writes w w1)" by auto
  have same: "written w' = written w1"
    using assms(4) Inr fc z
    by (auto simp: split_finish_def Let_def dest!: cleanup_files_written
             split: sum.splits if_splits bool.splits)
  then have b: "writes_within d w1 w'" by (rule writes_within_same)
  have c: "writes_within d w w'" using a b writes_within_trans by blast
  have "\<forall>p. r = Inr p \<longrightarrow> unique_id p = uid \<and> ok \<and> out_filename p = out @ ''-split.zip''"
    using assms(4) Inr fc z
    by (auto simp: split_finish_def Let_def split: sum.splits if_splits bool.splits)
  then show ?thesis
    using c mem writes_within_trans_mem(1) [OF a b] by auto
qed

lemma split_pdf_success:
  assumes "split_pdf env w folder uid file split_type page_ranges output_filename = (Inr p, w')"
  shows "\<exists>vf d w1 inp others w2 name res w3.
           create_temp_directory w folder uid = Inr (d, w1) \<and>
           save_uploaded_files w1 [vf] d = (Inr (inp # others), w2) \<and>
           (split_into_pages env w2 inp d (secure_output_filename name ''split-pdf'') = (res, w3) \<or>
            split_into_ranges env w2 inp d (secure_output_filename name ''split-pdf'') page_ranges
              = (res, w3)) \<and>
           split_finish env w3 uid d (inp # others) (secure_output_filename name ''split-pdf'') res
             = (Inr p, w')"
  using assms
  by (auto simp: split_pdf_def Let_def split: sum.splits prod.splits list.splits if_splits)
    blast+

lemma split_pdf_in_job_dir:
  assumes "is_uuid uid"
    and "split_pdf env w folder uid file split_type page_ranges output_filename = (Inr p, w')"
  shows "list_all (\<lambda>q. os_path_dirname q = os_path_join folder uid) (new_writes w w') \<and>
         splitter_get_file_path folder (unique_id p) (out_filename p) \<in> set (new_writes w w')"
proof -
  let ?d = "os_path_join folder uid"
  have dok: "?d \<noteq> []" "last ?d \<noteq> CHR ''/''" using job_dir_ok [OF assms(1)] by auto
  from split_pdf_success [OF assms(2)] obtain vf d w1 inp others w2 name res w3 where
    c0: "create_temp_directory w folder uid = Inr (d, w1)" and
    s0: "save_uploaded_files w1 [vf] d = (Inr (inp # others), w2)" and
    sp0: "split_into_pages env w2 inp d (secure_output_filename name ''split-pdf'') = (res, w3) \<or>
         split_into_ranges env w2 inp d (secure_output_filename name ''split-pdf'') page_ranges
           = (res, w3)" and
    fin0: "split_finish env w3 uid d (inp # others) (secure_output_filename name ''split-pdf'') res
            = (Inr p, w')"
    by blast
  define out where "out = secure_output_filename name ''split-pdf''"
  have out: "CHR ''/'' \<notin> set out" by (simp add: out_def secure_output_filename_no_slash)
  have d: "d = ?d" using c0 create_temp_directory_written by blast
  have c: "create_temp_directory w folder uid = Inr (?d, w1)" using c0 d by simp
  have s: "save_uploaded_files w1 [vf] ?d = (Inr (inp # others), w2)" using s0 d by simp
  have sp: "split_into_pages env w2 inp ?d out = (res, w3) \<or>
         split_into_ranges env w2 inp ?d out page_ranges = (res, w3)"
    using sp0 d by (simp add: out_def)
  have fin: "split_finish env w3 uid ?d (inp # others) out res = (Inr p, w')"
    using fin0 d by (simp add: out_def)
  have a: "writes_within ?d w w1"
    using c create_temp_directory_written writes_within_same by blast
  have b: "writes_within ?d w1 w2"
    using dok s by (rule save_uploaded_files_within)
  have e: "writes_within ?d w2 w3"
    using sp split_into_pages_within [OF dok out] split_into_ranges_within [OF dok out] by blast
  from split_finish_within [OF dok out fin]
  have f: "writes_within ?d w3 w'" and id: "unique_id p = uid"
    and mem: "os_path_join ?d (out_filename p) \<in> set (new_writes w3 w')" by auto
  have w3: "writes_within ?d w w3" using a b e writes_within_trans by blast
  then have all: "writes_within ?d w w'" using f writes_within_trans by blast
  have "os_path_join ?d (out_filename p) \<in> set (new_writes w w')"
    using mem writes_within_trans_mem(2) [OF w3 f] by blast
  then show ?thesis
    using all id by (simp add: writes_within_def splitter_get_file_path_def)
qed


lemma convert_docx_to_pdf_within:
  assumes "d \<noteq> []" and "last d \<noteq> CHR ''/''" and "CHR ''/'' \<notin> set out"
    and "convert_docx_to_pdf env w input d out = (r, w')"
  shows "writes_within d w w' \<and> (\<forall>p. r = Inr p \<longrightarrow> os_path_join d out \<in> set (new_writes w w'))"
proof -
  have dn: "os_path_dirname (os_path_join d out) = d" using assms(1-3) by (intro dirname_join)
  show ?thesis
    using assms(4) write_file_within [OF _ dn]
    by (auto simp: convert_docx_to_pdf_def Let_def writes_within_same
             split: sum.splits option.splits)
qed

lemma convert_word_to_pdf_success:
  assumes "convert_word_to_pdf env w folder uid file output_filename = (Inr p, w')"
  shows "\<exists>vf d w1 inp others w2 name path w3.
           create_temp_directory w folder uid = Inr (d, w1) \<and>
           save_uploaded_files w1 [vf] d = (Inr (inp # others), w2) \<and>
           convert_docx_to_pdf env w2 inp d (secure_output_filename name ''word-to-pdf.pdf'')
             = (Inr path, w3) \<and>
           cleanup_files w3 (inp # others) 0 = Inr w' \<and>
           unique_id p = uid \<and>
           out_filename p = secure_output_filename name ''word-to-pdf.pdf''"
  using assms
  by (auto simp: convert_word_to_pdf_def Let_def split: sum.splits prod.splits list.splits if_splits)
    blast+

lemma convert_word_to_pdf_in_job_dir:
  assumes "is_uuid uid"
    and "convert_word_to_pdf env w folder uid file output_filename = (Inr p, w')"
  shows "list_all (\<lambda>q. os_path_dirname q = os_path_join folder uid) (new_writes w w') \<and>
         word_get_file_path folder (unique_id p) (out_filename p) \<in> set (new_writes w w')"
proof -
  let ?d = "os_path_join folder uid"
  have dok: "?d \<noteq> []" "last ?d \<noteq> CHR ''/''" using job_dir_ok [OF assms(1)] by auto
  from convert_word_to_pdf_success [OF assms(2)] obtain vf d w1 inp others w2 name path w3 where
    c0: "create_temp_directory w folder uid = Inr (d, w1)" and
    s0: "save_uploaded_files w1 [vf] d = (Inr (inp # others), w2)" and
    cv0: "convert_docx_to_pdf env w2 inp d (secure_output_filename name ''word-to-pdf.pdf'')
             = (Inr path, w3)" and
    cl: "cleanup_files w3 (inp # others) 0 = Inr w'" and
    p: "unique_id p = uid" "out_filename p = secure_output_filename name ''word-to-pdf.pdf''"
    by blast
  define out where "out = secure_output_filename name ''word-to-pdf.pdf''"
  have out: "CHR ''/'' \<notin> set out" by (simp add: out_def secure_output_filename_no_slash)
  have d: "d = ?d" using c0 create_temp_directory_written by blast
  have a: "writes_within ?d w w1"
    using c0 create_temp_directory_written writes_within_same by blast
  have s: "save_uploaded_files w1 [vf] ?d = (Inr (inp # others), w2)" using s0 d by simp
  have b: "writes_within ?d w1 w2" using dok s by (rule save_uploaded_files_within)
  have cv: "convert_docx_to_pdf env w2 inp ?d out = (Inr path, w3)" using cv0 d by (simp add: out_def)
  from convert_docx_to_pdf_within [OF dok out cv]
  have e: "writes_within ?d w2 w3" and mem: "os_path_join ?d out \<in> set (new_writes w2 w3)" by auto
  have f: "writes_within ?d w3 w'" using cl cleanup_files_written writes_within_same by blast
  have w2: "writes_within ?d w w2" using a b writes_within_trans by blast
  have w3: "writes_within ?d w w3" using w2 e writes_within_trans by blast
  have all: "writes_within ?d w w'" using w3 f writes_within_trans by blast
  have "os_path_join ?d out \<in> set (new_writes w w3)"
    using mem writes_within_trans_mem(2) [OF w2 e] by blast
  then have "os_path_join ?d out \<in> set (new_writes w w')"
    using writes_within_trans_mem(1) [OF w3 f] by blast
  then show ?thesis
    using all p by (simp add: writes_within_def word_get_file_path_def out_def)
qed

lemma convert_pdf_to_word_within:
  assumes "d \<noteq> []" and "last d \<noteq> CHR ''/''" and "CHR ''/'' \<notin> set out"
    and "convert_pdf_to_word env w input d out = (r, w')"
  shows "writes_within d w w'"
proof -
  have dn: "os_path_dirname (os_path_join d out) = d" using assms(1-3) by (intro dirname_join)
  show ?thesis
    using assms(4) write_file_within [OF _ dn]
    by (auto simp: convert_pdf_to_word_def Let_def writes_within_same
             split: sum.splits option.splits if_splits)
qed

lemma splitext_fst_no_slash: "CHR ''/'' \<notin> set s \<Longrightarrow> CHR ''/'' \<notin> set (fst (os_path_splitext s))"
  by (auto simp: os_path_splitext_def Let_def dest: in_set_takeD)

lemma docx_output_filename_no_slash: "CHR ''/'' \<notin> set (docx_output_filename n)"
  using secure_output_filename_no_slash [of n "''converted-document.docx''"]
    splitext_fst_no_slash [of "secure_output_filename n ''converted-document.docx''"]
  by (auto simp: docx_output_filename_def Let_def)

lemma convert_file_success:
  assumes "convert_file env w folder uid files output_filename = (Inr p, w')"
  shows "\<exists>valid d w1 inp others w2 name path w3.
           create_temp_directory w folder uid = Inr (d, w1) \<and>
           save_uploaded_files w1 valid d = (Inr (inp # others), w2) \<and>
           convert_pdf_to_word env w2 inp d (docx_output_filename name) = (Inr path, w3) \<and>
           cleanup_files w3 (inp # others) 0 = Inr w' \<and>
           unique_id p = uid \<and> out_filename p = docx_output_filename name"
  using assms
  by (auto simp: convert_file_def Let_def simp del: not_less
           split: sum.splits prod.splits list.splits if_splits)
    blast+

lemma convert_file_in_job_dir:
  assumes "is_uuid uid"
    and "convert_file env w folder uid files output_filename = (Inr p, w')"
  shows "list_all (\<lambda>q. os_path_dirname q = os_path_join folder uid) (new_writes w w') \<and>
         os_path_dirname (pdf2word_get_file_path folder (unique_id p) (out_filename p))
           = os_path_join folder uid"
proof -
  let ?d = "os_path_join folder uid"
  have dok: "?d \<noteq> []" "last ?d \<noteq> CHR ''/''" using job_dir_ok [OF assms(1)] by auto
  from convert_file_success [OF assms(2)] obtain valid d w1 inp others w2 name path w3 where
    c0: "create_temp_directory w folder uid = Inr (d, w1)" and
    s0: "save_uploaded_files w1 valid d = (Inr (inp # others), w2)" and
    cv0: "convert_pdf_to_word env w2 inp d (docx_output_filename name) = (Inr path, w3)" and
    cl: "cleanup_files w3 (inp # others) 0 = Inr w'" and
    p0: "unique_id p = uid" "out_filename p = docx_output_filename name"
    by blast
  define out where "out = docx_output_filename name"
  have out: "CHR ''/'' \<notin> set out" by (simp add: out_def docx_output_filename_no_slash)
  have p: "unique_id p = uid" "out_filename p = out" using p0 by (simp_all add: out_def)
  have d: "d = ?d" using c0 create_temp_directory_written by blast
  have a: "writes_within ?d w w1"
    using c0 create_temp_directory_written writes_within_same by blast
  have s: "save_uploaded_files w1 valid ?d = (Inr (inp # others), w2)" using s0 d by simp
  have b: "writes_within ?d w1 w2" using dok s by (rule save_uploaded_files_within)
  have cv: "convert_pdf_to_word env w2 inp ?d out = (Inr path, w3)"
    using cv0 d by (simp add: out_def)
  have e: "writes_within ?d w2 w3" using dok out cv by (rule convert_pdf_to_word_within)
  have f: "writes_within ?d w3 w'" using cl cleanup_files_written writes_within_same by blast
  have all: "writes_within ?d w w'" using a b e f writes_within_trans by blast
  have "os_path_dirname (os_path_join ?d out) = ?d" using dok out by (intro dirname_join)
  then show ?thesis
    using all p by (simp add: writes_within_def pdf2word_get_file_path_def)
qed


lemma upload_folder_ok:
  "default_UPLOAD_FOLDER \<noteq> [] \<and> last default_UPLOAD_FOLDER \<noteq> CHR ''/''"
  by (simp add: default_UPLOAD_FOLDER_def)

lemma flat_dirname:
  assumes "CHR ''/'' \<notin> set n"
  shows "os_path_dirname (os_path_join default_UPLOAD_FOLDER n) = default_UPLOAD_FOLDER"
  using upload_folder_ok assms by (intro dirname_join) auto

lemma compress_with_advanced_method_within:
  assumes "os_path_dirname op = d"
    and "compress_with_advanced_method env w ip op lvl = (ok, w')"
  shows "writes_within d w w' \<and> (ok \<longrightarrow> op \<in> set (new_writes w w'))"
  using assms(2) write_file_within [OF _ assms(1)]
  by (auto simp: compress_with_advanced_method_def writes_within_same
           split: sum.splits option.splits prod.splits)

lemma compress_with_basic_method_within:
  assumes "os_path_dirname op = d"
    and "compress_with_basic_method env w ip op = (ok, w')"
  shows "writes_within d w w' \<and> (ok \<longrightarrow> op \<in> set (new_writes w w'))"
  using assms(2) write_file_within [OF _ assms(1)]
  by (auto simp: compress_with_basic_method_def writes_within_same
           split: sum.splits option.splits prod.splits)

lemma compress_pdf_file_within:
  assumes "os_path_dirname op = d"
    and "compress_pdf_file env w ip op lvl = (ok, w')"
  shows "writes_within d w w' \<and> (ok \<longrightarrow> op \<in> set (new_writes w w'))"
proof -
  obtain ok1 w1 where a: "compress_with_advanced_method env w ip op lvl = (ok1, w1)"
    by (cases "compress_with_advanced_method env w ip op lvl")
  from compress_with_advanced_method_within [OF assms(1) a]
  have a1: "writes_within d w w1" and a2: "ok1 \<Longrightarrow> op \<in> set (new_writes w w1)" by auto
  show ?thesis
  proof (cases ok1)
    case True
    with assms(2) a a1 a2 show ?thesis by (auto simp: compress_pdf_file_def)
  next
    case False
    with assms(2) a have b: "compress_with_basic_method env w1 ip op = (ok, w')"
      by (simp add: compress_pdf_file_def)
    from compress_with_basic_method_within [OF assms(1) b]
    have b1: "writes_within d w1 w'" and b2: "ok \<Longrightarrow> op \<in> set (new_writes w1 w')" by auto
    show ?thesis
      using a1 b1 b2 writes_within_trans writes_within_trans_mem(2) [OF a1 b1] by blast
  qed
qed

lemma compress_report_result:
  assumes "compress_report env w uid out op orig = (Inr p, w')"
  shows "w' = w \<and> unique_id p = uid \<and> out_filename p = out \<and> file_path p = op"
  using assms
  by (auto simp: compress_report_def Let_def split: sum.splits if_splits)

lemma compress_pdf_success:
  assumes "compress_pdf env w uid file output_filename lvl = (Inr p, w')"
  defines "tp \<equiv> os_path_join default_UPLOAD_FOLDER
                    (''temp_'' @ uid @ ''_'' @ secure_filename (filename file))"
  shows "\<exists>name w1 orig w2 w3.
           write_file w tp (stream file) = Inr w1 \<and>
           compress_pdf_file env w1 tp
             (os_path_join default_UPLOAD_FOLDER (uid @ ''_'' @ secure_filename name)) lvl
             = (True, w2) \<and>
           (w3 = w2 \<or> os_remove w2 tp = Inr w3) \<and>
           compress_report env w3 uid (secure_filename name)
             (os_path_join default_UPLOAD_FOLDER (uid @ ''_'' @ secure_filename name)) orig
             = (Inr p, w')"
  using assms(1) unfolding tp_def
  by (auto simp: compress_pdf_def Let_def split: sum.splits prod.splits if_splits)

lemma compress_pdf_in_upload_folder:
  assumes "is_uuid uid"
    and "compress_pdf env w uid file output_filename lvl = (Inr p, w')"
  shows "list_all (\<lambda>q. os_path_dirname q = default_UPLOAD_FOLDER) (new_writes w w') \<and>
         compressor_get_file_path (unique_id p) (out_filename p) = file_path p \<and>
         file_path p \<in> set (new_writes w w')"
proof -
  let ?U = default_UPLOAD_FOLDER
  let ?tp = "os_path_join ?U (''temp_'' @ uid @ ''_'' @ secure_filename (filename file))"
  have ns: "CHR ''/'' \<notin> set uid" using is_uuid_chars [OF assms(1)] by simp
  from compress_pdf_success [OF assms(2)] obtain name w1 orig w2 w3 where
    wr: "write_file w ?tp (stream file) = Inr w1" and
    cf: "compress_pdf_file env w1 ?tp (os_path_join ?U (uid @ ''_'' @ secure_filename name)) lvl
           = (True, w2)" and
    same0: "w3 = w2 \<or> os_remove w2 ?tp = Inr w3" and
    rep: "compress_report env w3 uid (secure_filename name)
            (os_path_join ?U (uid @ ''_'' @ secure_filename name)) orig = (Inr p, w')"
    by blast
  let ?op = "os_path_join ?U (uid @ ''_'' @ secure_filename name)"
  have d1: "os_path_dirname ?tp = ?U"
    using ns secure_filename_no_slash by (intro flat_dirname) simp
  have d2: "os_path_dirname ?op = ?U"
    using ns secure_filename_no_slash by (intro flat_dirname) simp
  have a: "writes_within ?U w w1" using write_file_within [OF wr d1] by simp
  from compress_pdf_file_within [OF d2 cf]
  have b: "writes_within ?U w1 w2" and mem: "?op \<in> set (new_writes w1 w2)" by auto
  have same: "written w3 = written w2" using same0 os_remove_written by blast
  have c: "writes_within ?U w2 w3" using same by (rule writes_within_same)
  from compress_report_result [OF rep]
  have r: "w' = w3" "unique_id p = uid" "out_filename p = secure_filename name" "file_path p = ?op"
    by auto
  have w2: "writes_within ?U w w2" using a b writes_within_trans by blast
  have all: "writes_within ?U w w3" using w2 c writes_within_trans by blast
  have "?op \<in> set (new_writes w w2)" using mem writes_within_trans_mem(2) [OF a b] by blast
  then have "?op \<in> set (new_writes w w3)" using writes_within_trans_mem(1) [OF w2 c] by blast
  then show ?thesis
    using all r by (simp add: writes_within_def compressor_get_file_path_def secure_filename_idem)
qed

lemma remove_existing_written_snd: "written (snd (remove_existing w ps)) = written w"
  using remove_existing_written [of w ps] by (cases "remove_existing w ps") auto

lemma images_loop_within:
  assumes "CHR ''/'' \<notin> set uid"
  shows "images_loop env w fs margin uid tfs pages cur = (r, w') \<Longrightarrow>
         writes_within default_UPLOAD_FOLDER w w'"
proof (induction fs arbitrary: w tfs pages cur)
  case Nil
  then show ?case by (simp add: writes_within_same)
next
  case (Cons f fs)
  let ?U = default_UPLOAD_FOLDER
  let ?tp = "os_path_join ?U (''temp_'' @ uid @ ''_'' @ secure_filename (filename f))"
  have d1: "os_path_dirname ?tp = ?U"
    using assms secure_filename_no_slash by (intro flat_dirname) simp
  show ?case
  proof (cases "write_file w ?tp (stream f)")
    case (Inl e)
    with Cons.prems show ?thesis by (simp add: writes_within_same)
  next
    case (Inr w1)
    then have a: "writes_within ?U w w1" using write_file_within [OF _ d1] by blast
    have "writes_within ?U w1 w'"
      using Cons.prems Inr Cons.IH
      by (auto simp: Let_def remove_existing_written_snd intro!: writes_within_same
               split: sum.splits option.splits prod.splits if_splits)
    with a show ?thesis using writes_within_trans by blast
  qed
qed

lemma simple_loop_within:
  assumes "CHR ''/'' \<notin> set uid"
  shows "simple_loop env w fs uid tfs imgs = (r, w') \<Longrightarrow>
         writes_within default_UPLOAD_FOLDER w w'"
proof (induction fs arbitrary: w tfs imgs)
  case Nil
  then show ?case by (simp add: writes_within_same)
next
  case (Cons f fs)
  let ?U = default_UPLOAD_FOLDER
  let ?tp = "os_path_join ?U (''temp_'' @ uid @ ''_'' @ secure_filename (filename f))"
  have d1: "os_path_dirname ?tp = ?U"
    using assms secure_filename_no_slash by (intro flat_dirname) simp
  show ?case
  proof (cases "write_file w ?tp (stream f)")
    case (Inl e)
    with Cons.prems show ?thesis by (simp add: writes_within_same)
  next
    case (Inr w1)
    then have a: "writes_within ?U w w1" using write_file_within [OF _ d1] by blast
    have "writes_within ?U w1 w'"
      using Cons.prems Inr Cons.IH
      by (auto simp: Let_def remove_existing_written_snd intro!: writes_within_same
               split: sum.splits option.splits prod.splits if_splits)
    with a show ?thesis using writes_within_trans by blast
  qed
qed


lemma convert_images_simple_within:
  assumes "CHR ''/'' \<notin> set uid" and "os_path_dirname op = default_UPLOAD_FOLDER"
    and "convert_images_simple env w fs op uid = (ok, w')"
  shows "writes_within default_UPLOAD_FOLDER w w' \<and> (ok \<longrightarrow> op \<in> set (new_writes w w'))"
proof -
  let ?U = default_UPLOAD_FOLDER
  obtain r w1 where l: "simple_loop env w fs uid [] [] = (r, w1)"
    by (cases "simple_loop env w fs uid [] []")
  then have a: "writes_within ?U w w1" by (rule simple_loop_within [OF assms(1)])
  show ?thesis
  proof (cases r)
    case None
    with assms(3) l a show ?thesis by (simp add: convert_images_simple_def)
  next
    case (Some ti)
    obtain tfs imgs where ti: "ti = (tfs, imgs)" by (cases ti)
    show ?thesis
    proof (cases "imgs = []")
      case True
      have "writes_within ?U w1 (snd (remove_existing w1 tfs))"
        by (rule writes_within_same) (rule remove_existing_written_snd)
      with assms(3) l Some ti True a show ?thesis
        using writes_within_trans by (auto simp: convert_images_simple_def)
    next
      case False
      show ?thesis
      proof (cases "write_file w1 op (pil_save_pdf env imgs)")
        case (Inl e)
        with assms(3) l Some ti False a show ?thesis by (simp add: convert_images_simple_def)
      next
        case (Inr w2)
        from write_file_within [OF Inr assms(2)]
        have b: "writes_within ?U w1 w2" and mem: "op \<in> set (new_writes w1 w2)" by auto
        obtain r3 w3 where rm: "remove_existing w2 tfs = (r3, w3)"
          by (cases "remove_existing w2 tfs")
        then have c: "writes_within ?U w2 w3"
          using remove_existing_written writes_within_same by blast
        have w3: "w' = w3" using assms(3) l Some ti False Inr rm
          by (auto simp: convert_images_simple_def split: sum.splits)
        have w2: "writes_within ?U w w2" using a b writes_within_trans by blast
        have "op \<in> set (new_writes w w2)" using mem writes_within_trans_mem(2) [OF a b] by blast
        then have "op \<in> set (new_writes w w3)" using writes_within_trans_mem(1) [OF w2 c] by blast
        moreover have "writes_within ?U w w3" using w2 c writes_within_trans by blast
        ultimately show ?thesis using w3 by simp
      qed
    qed
  qed
qed

lemma convert_images_with_margins_within:
  assumes "CHR ''/'' \<notin> set uid" and "os_path_dirname op = default_UPLOAD_FOLDER"
    and "convert_images_with_margins env w fs op margin uid = (ok, w')"
  shows "writes_within default_UPLOAD_FOLDER w w' \<and> (ok \<longrightarrow> op \<in> set (new_writes w w'))"
proof (cases "have_reportlab env")
  case False
  with assms(3) have "convert_images_simple env w fs op uid = (ok, w')"
    by (simp add: convert_images_with_margins_def)
  then show ?thesis using assms(1,2) convert_images_simple_within by blast
next
  case True
  let ?U = default_UPLOAD_FOLDER
  obtain r w1 where l: "images_loop env w fs margin uid [] [] [] = (r, w1)"
    by (cases "images_loop env w fs margin uid [] [] []")
  then have a: "writes_within ?U w w1" by (rule images_loop_within [OF assms(1)])
  show ?thesis
  proof (cases r)
    case None
    with assms(3) True l a show ?thesis by (simp add: convert_images_with_margins_def)
  next
    case (Some tpc)
    obtain tfs pages cur where tpc: "tpc = (tfs, pages, cur)" by (cases tpc)
    show ?thesis
    proof (cases "write_file w1 op (canvas_save env pages cur)")
      case (Inl e)
      with assms(3) True l Some tpc a show ?thesis
        by (simp add: convert_images_with_margins_def)
    next
      case (Inr w2)
      from write_file_within [OF Inr assms(2)]
      have b: "writes_within ?U w1 w2" and mem: "op \<in> set (new_writes w1 w2)" by auto
      obtain r3 w3 where rm: "remove_existing w2 tfs = (r3, w3)"
        by (cases "remove_existing w2 tfs")
      then have c: "writes_within ?U w2 w3"
        using remove_existing_written writes_within_same by blast
      have w3: "w' = w3" using assms(3) True l Some tpc Inr rm
        by (auto simp: convert_images_with_margins_def split: sum.splits)
      have w2: "writes_within ?U w w2" using a b writes_within_trans by blast
      have "op \<in> set (new_writes w w2)" using mem writes_within_trans_mem(2) [OF a b] by blast
      then have "op \<in> set (new_writes w w3)" using writes_within_trans_mem(1) [OF w2 c] by blast
      moreover have "writes_within ?U w w3" using w2 c writes_within_trans by blast
      ultimately show ?thesis using w3 by simp
    qed
  qed
qed

lemma convert_images_to_pdf_success:
  assumes "convert_images_to_pdf env w uid files output_filename margin_size = (Inr p, w')"
  shows "\<exists>valid name margin.
           convert_images_with_margins env w valid
             (os_path_join default_UPLOAD_FOLDER (uid @ ''_'' @ secure_filename name)) margin uid
             = (True, w') \<and>
           unique_id p = uid \<and> out_filename p = secure_filename name \<and>
           file_path p = os_path_join default_UPLOAD_FOLDER (uid @ ''_'' @ secure_filename name)"
  using assms
  by (auto simp: convert_images_to_pdf_def Let_def
           split: sum.splits prod.splits if_splits bool.splits)
    blast+

lemma convert_images_to_pdf_in_upload_folder:
  assumes "is_uuid uid"
    and "convert_images_to_pdf env w uid files output_filename margin_size = (Inr p, w')"
  shows "list_all (\<lambda>q. os_path_dirname q = default_UPLOAD_FOLDER) (new_writes w w') \<and>
         image_get_file_path (unique_id p) (out_filename p) = file_path p \<and>
         file_path p \<in> set (new_writes w w')"
proof -
  have ns: "CHR ''/'' \<notin> set uid" using is_uuid_chars [OF assms(1)] by simp
  from convert_images_to_pdf_success [OF assms(2)] obtain valid name margin where
    cv: "convert_images_with_margins env w valid
           (os_path_join default_UPLOAD_FOLDER (uid @ ''_'' @ secure_filename name)) margin uid
           = (True, w')" and
    p: "unique_id p = uid" "out_filename p = secure_filename name"
       "file_path p = os_path_join default_UPLOAD_FOLDER (uid @ ''_'' @ secure_filename name)"
    by blast
  have d2: "os_path_dirname (os_path_join default_UPLOAD_FOLDER (uid @ ''_'' @ secure_filename name))
              = default_UPLOAD_FOLDER"
    using ns secure_filename_no_slash by (intro flat_dirname) simp
  from convert_images_with_margins_within [OF ns d2 cv] show ?thesis
    using p by (simp add: writes_within_def image_get_file_path_def secure_filename_idem)
qed

text \<open>
  Claim C1, as the code has it. After a successful merge, split, Word-to-PDF or
  PDF-to-Word operation every file the operation wrote (staged copies and produced files)
  is an entry of the directory of the job, \<open>upload_folder/unique_id\<close>, and the path the
  service resolves for the returned identifier and file name lies in that directory (for
  merge, split and Word-to-PDF it is one of the files written). The compressor and the
  image service have no directory per job: after a successful operation every file they
  wrote is an entry of the default upload folder itself, and the path they resolve for the
  returned identifier and file name is the produced file.
\<close>

theorem operation_files_location:
  assumes "is_uuid uid"
  shows
   "(merge_files env w folder uid files_m name_m = (Inr p_m, w_m) \<longrightarrow>
       list_all (\<lambda>q. os_path_dirname q = os_path_join folder uid) (new_writes w w_m) \<and>
       merger_get_file_path folder (unique_id p_m) (out_filename p_m) \<in> set (new_writes w w_m)) \<and>
    (split_pdf env w folder uid file_s split_type page_ranges name_s = (Inr p_s, w_s) \<longrightarrow>
       list_all (\<lambda>q. os_path_dirname q = os_path_join folder uid) (new_writes w w_s) \<and>
       splitter_get_file_path folder (unique_id p_s) (out_filename p_s) \<in> set (new_writes w w_s)) \<and>
    (convert_word_to_pdf env w folder uid file_d name_d = (Inr p_d, w_d) \<longrightarrow>
       list_all (\<lambda>q. os_path_dirname q = os_path_join folder uid) (new_writes w w_d) \<and>
       word_get_file_path folder (unique_id p_d) (out_filename p_d) \<in> set (new_writes w w_d)) \<and>
    (convert_file env w folder uid files_c name_c = (Inr p_c, w_c) \<longrightarrow>
       list_all (\<lambda>q. os_path_dirname q = os_path_join folder uid) (new_writes w w_c) \<and>
       os_path_dirname (pdf2word_get_file_path folder (unique_id p_c) (out_filename p_c))
         = os_path_join folder uid) \<and>
    (compress_pdf env w uid file_z name_z level = (Inr p_z, w_z) \<longrightarrow>
       list_all (\<lambda>q. os_path_dirname q = default_UPLOAD_FOLDER) (new_writes w w_z) \<and>
       compressor_get_file_path (unique_id p_z) (out_filename p_z) = file_path p_z \<and>
       file_path p_z \<in> set (new_writes w w_z)) \<and>
    (convert_images_to_pdf env w uid files_i name_i margin_size = (Inr p_i, w_i) \<longrightarrow>
       list_all (\<lambda>q. os_path_dirname q = default_UPLOAD_FOLDER) (new_writes w w_i) \<and>
       image_get_file_path (unique_id p_i) (out_filename p_i) = file_path p_i \<and>
       file_path p_i \<in> set (new_writes w w_i))"
proof -
  have m: "merge_files env w folder uid files_m name_m = (Inr p_m, w_m) \<longrightarrow>
       list_all (\<lambda>q. os_path_dirname q = os_path_join folder uid) (new_writes w w_m) \<and>
       merger_get_file_path folder (unique_id p_m) (out_filename p_m) \<in> set (new_writes w w_m)"
    using merge_files_in_job_dir [OF assms] by (intro impI)
  have s: "split_pdf env w folder uid file_s split_type page_ranges name_s = (Inr p_s, w_s) \<longrightarrow>
       list_all (\<lambda>q. os_path_dirname q = os_path_join folder uid) (new_writes w w_s) \<and>
       splitter_get_file_path folder (unique_id p_s) (out_filename p_s) \<in> set (new_writes w w_s)"
    using split_pdf_in_job_dir [OF assms] by (intro impI)
  have d: "convert_word_to_pdf env w folder uid file_d name_d = (Inr p_d, w_d) \<longrightarrow>
       list_all (\<lambda>q. os_path_dirname q = os_path_join folder uid) (new_writes w w_d) \<and>
       word_get_file_path folder (unique_id p_d) (out_filename p_d) \<in> set (new_writes w w_d)"
    using convert_word_to_pdf_in_job_dir [OF assms] by (intro impI)
  have c: "convert_file env w folder uid files_c name_c = (Inr p_c, w_c) \<longrightarrow>
       list_all (\<lambda>q. os_path_dirname q = os_path_join folder uid) (new_writes w w_c) \<and>
       os_path_dirname (pdf2word_get_file_path folder (unique_id p_c) (out_filename p_c))
         = os_path_join folder uid"
    using convert_file_in_job_dir [OF assms] by (intro impI)
  have z: "compress_pdf env w uid file_z name_z level = (Inr p_z, w_z) \<longrightarrow>
       list_all (\<lambda>q. os_path_dirname q = default_UPLOAD_FOLDER) (new_writes w w_z) \<and>
       compressor_get_file_path (unique_id p_z) (out_filename p_z) = file_path p_z \<and>
       file_path p_z \<in> set (new_writes w w_z)"
    using compress_pdf_in_upload_folder [OF assms] by (intro impI)
  have i: "convert_images_to_pdf env w uid files_i name_i margin_size = (Inr p_i, w_i) \<longrightarrow>
       list_all (\<lambda>q. os_path_dirname q = default_UPLOAD_FOLDER) (new_writes w w_i) \<and>
       image_get_file_path (unique_id p_i) (out_filename p_i) = file_path p_i \<and>
       file_path p_i \<in> set (new_writes w w_i)"
    using convert_images_to_pdf_in_upload_folder [OF assms] by (intro impI)
  from m s d c z i show ?thesis by (intro conjI)
qed

lemma run_success: "\<not> isl (fst r) \<Longrightarrow> r = (Inr (projr (fst r)), snd r)"
  by (cases r, cases "fst r") auto

theorem operation_files_location_witness:
  "is_uuid sample_id \<and>
   \<not> isl (fst merge_run) \<and>
   list_all (\<lambda>q. os_path_dirname q = os_path_join ''uploads'' sample_id)
     (new_writes empty_world (snd merge_run)) \<and>
   \<not> isl (fst split_run) \<and>
   list_all (\<lambda>q. os_path_dirname q = os_path_join ''uploads'' sample_id)
     (new_writes empty_world (snd split_run)) \<and>
   \<not> isl (fst word_run) \<and>
   list_all (\<lambda>q. os_path_dirname q = os_path_join ''uploads'' sample_id)
     (new_writes empty_world (snd word_run)) \<and>
   \<not> isl (fst pdf2word_run) \<and>
   list_all (\<lambda>q. os_path_dirname q = os_path_join ''uploads'' sample_id)
     (new_writes empty_world (snd pdf2word_run)) \<and>
   \<not> isl (fst compress_run) \<and>
   list_all (\<lambda>q. os_path_dirname q = default_UPLOAD_FOLDER)
     (new_writes empty_world (snd compress_run)) \<and>
   \<not> isl (fst image_run) \<and>
   list_all (\<lambda>q. os_path_dirname q = default_UPLOAD_FOLDER)
     (new_writes empty_world (snd image_run))"
proof -
  have u: "is_uuid sample_id" by code_simp
  have m: "\<not> isl (fst merge_run)" by code_simp
  have s: "\<not> isl (fst split_run)" by code_simp
  have d: "\<not> isl (fst word_run)" by code_simp
  have c: "\<not> isl (fst pdf2word_run)" by code_simp
  have z: "\<not> isl (fst compress_run)" by code_simp
  have i: "\<not> isl (fst image_run)" by code_simp
  have em: "merge_files sample_env empty_world ''uploads'' sample_id [pdf_a, pdf_b] ''out''
              = (Inr (projr (fst merge_run)), snd merge_run)"
    using run_success [OF m] by (simp add: merge_run_def)
  have es: "split_pdf sample_env empty_world ''uploads'' sample_id pdf_a ''ranges'' [''1-3'', ''5''] []
              = (Inr (projr (fst split_run)), snd split_run)"
    using run_success [OF s] by (simp add: split_run_def)
  have ed: "convert_word_to_pdf sample_env empty_world ''uploads'' sample_id docx_a []
              = (Inr (projr (fst word_run)), snd word_run)"
    using run_success [OF d] by (simp add: word_run_def)
  have ec: "convert_file sample_env empty_world ''uploads'' sample_id [pdf_a] []
              = (Inr (projr (fst pdf2word_run)), snd pdf2word_run)"
    using run_success [OF c] by (simp add: pdf2word_run_def)
  have ez: "compress_pdf sample_env empty_world sample_id pdf_a [] ''medium''
              = (Inr (projr (fst compress_run)), snd compress_run)"
    using run_success [OF z] by (simp add: compress_run_def)
  have ei: "convert_images_to_pdf sample_env empty_world sample_id [png_a, jpg_b] [] ''medium''
              = (Inr (projr (fst image_run)), snd image_run)"
    using run_success [OF i] by (simp add: image_run_def)
  note T = operation_files_location [OF u, where env = sample_env and w = empty_world
      and folder = "''uploads''"
      and files_m = "[pdf_a, pdf_b]" and name_m = "''out''"
      and p_m = "projr (fst merge_run)" and w_m = "snd merge_run"
      and file_s = pdf_a and split_type = "''ranges''" and page_ranges = "[''1-3'', ''5'']"
      and name_s = "[]" and p_s = "projr (fst split_run)" and w_s = "snd split_run"
      and file_d = docx_a and name_d = "[]"
      and p_d = "projr (fst word_run)" and w_d = "snd word_run"
      and files_c = "[pdf_a]" and name_c = "[]"
      and p_c = "projr (fst pdf2word_run)" and w_c = "snd pdf2word_run"
      and file_z = pdf_a and name_z = "[]" and level = "''medium''"
      and p_z = "projr (fst compress_run)" and w_z = "snd compress_run"
      and files_i = "[png_a, jpg_b]" and name_i = "[]" and margin_size = "''medium''"
      and p_i = "projr (fst image_run)" and w_i = "snd image_run"]
  from T em es ed ec ez ei u m s d c z i show ?thesis by blast
qed

theorem compress_outside_job_directory_counterexample:
  "is_uuid sample_id \<and>
   \<not> isl (fst compress_run) \<and>
   new_writes empty_world (snd compress_run) =
     [''uploads/temp_123e4567-e89b-42d3-a456-426614174000_a.pdf'',
      ''uploads/123e4567-e89b-42d3-a456-426614174000_a_compressed.pdf''] \<and>
   os_path_join ''uploads'' sample_id = ''uploads/123e4567-e89b-42d3-a456-426614174000'' \<and>
   os_path_dirname ''uploads/temp_123e4567-e89b-42d3-a456-426614174000_a.pdf'' = ''uploads'' \<and>
   os_path_dirname ''uploads/123e4567-e89b-42d3-a456-426614174000_a_compressed.pdf'' = ''uploads'' \<and>
   compressor_get_file_path (unique_id (projr (fst compress_run)))
       (out_filename (projr (fst compress_run)))
     = ''uploads/123e4567-e89b-42d3-a456-426614174000_a_compressed.pdf'' \<and>
   \<not> os_path_exists (snd compress_run) (os_path_join ''uploads'' sample_id)"
  by code_simp

section \<open>Splitting\<close>

lemma str_nat_nonempty: "str_nat n \<noteq> []"
  by (subst str_nat.simps) simp

lemma digit_char_inj: "a < 10 \<Longrightarrow> b < 10 \<Longrightarrow> digit_char a = digit_char b \<Longrightarrow> a = b"
proof -
  assume a: "a < 10" and b: "b < 10" and e: "digit_char a = digit_char b"
  have d: "distinct ascii_digits" by (simp add: ascii_digits_def)
  have l: "length ascii_digits = 10" by (simp add: ascii_digits_def)
  from e have "ascii_digits ! a = ascii_digits ! b" by (simp add: digit_char_def)
  with d a b l show "a = b" by (simp add: nth_eq_iff_index_eq)
qed

lemma str_nat_inj: "str_nat a = str_nat b \<Longrightarrow> a = b"
proof (induction a arbitrary: b rule: str_nat.induct)
  case (1 a)
  show ?case
  proof (cases "a < 10")
    case True
    then have sa: "str_nat a = [digit_char a]" by (subst str_nat.simps) simp
    show ?thesis
    proof (cases "b < 10")
      case b: True
      then have "str_nat b = [digit_char b]" by (subst str_nat.simps) simp
      with sa "1.prems" have "digit_char a = digit_char b" by simp
      with True b show ?thesis by (rule digit_char_inj)
    next
      case False
      then have "str_nat b = str_nat (b div 10) @ [digit_char (b mod 10)]"
        by (subst str_nat.simps) simp
      with sa "1.prems" have "str_nat (b div 10) = []" by simp
      with str_nat_nonempty show ?thesis by blast
    qed
  next
    case False
    then have sa: "str_nat a = str_nat (a div 10) @ [digit_char (a mod 10)]"
      by (subst str_nat.simps) simp
    show ?thesis
    proof (cases "b < 10")
      case True
      then have "str_nat b = [digit_char b]" by (subst str_nat.simps) simp
      with sa "1.prems" have "str_nat (a div 10) = []" by simp
      with str_nat_nonempty show ?thesis by blast
    next
      case b: False
      then have "str_nat b = str_nat (b div 10) @ [digit_char (b mod 10)]"
        by (subst str_nat.simps) simp
      with sa "1.prems" have e1: "str_nat (a div 10) = str_nat (b div 10)"
        and e2: "digit_char (a mod 10) = digit_char (b mod 10)" by auto
      from "1.IH" [OF False e1] have q: "a div 10 = b div 10" .
      have "a mod 10 < 10" "b mod 10 < 10" by simp_all
      with e2 have r: "a mod 10 = b mod 10" using digit_char_inj by blast
      from q r show ?thesis by (metis div_mult_mod_eq)
    qed
  qed
qed

lemma os_path_join_inj:
  assumes "os_path_join d (out @ x) = os_path_join d (out @ y)"
    and "x \<noteq> []" and "y \<noteq> []" and "hd x = hd y" 
  shows "x = y"
proof -
  have "(out @ x \<noteq> [] \<and> hd (out @ x) = CHR ''/'') = (out @ y \<noteq> [] \<and> hd (out @ y) = CHR ''/'')"
    using assms(2-4) by (cases out) auto
  with assms(1) have "out @ x = out @ y"
    by (auto simp: os_path_join_def split: if_splits)
  then show ?thesis by simp
qed

lemma page_path_inj:
  assumes "os_path_join d (out @ ''-page-'' @ str_nat (a + 1) @ ''.pdf'')
         = os_path_join d (out @ ''-page-'' @ str_nat (b + 1) @ ''.pdf'')"
  shows "a = b"
proof -
  have "''-page-'' @ str_nat (a + 1) @ ''.pdf'' = ''-page-'' @ str_nat (b + 1) @ ''.pdf''"
    by (rule os_path_join_inj [of d out]) (use assms in simp_all)
  then have "str_nat (a + 1) = str_nat (b + 1)" by simp
  then show ?thesis using str_nat_inj by fastforce
qed

lemma write_file_effect:
  assumes "p \<notin> set (denied w)" and "\<not> os_path_isdir w p"
  shows "\<exists>w'. write_file w p c = Inr w' \<and> denied w' = denied w \<and>
           written w' = written w @ [(p, c)] \<and>
           (\<forall>q. lookup w' q = (if q = p then Some (File c) else lookup w q))"
  using assms by (simp add: write_file_def lookup_def update_conv')

lemma split_pages_loop_ok:
  fixes env :: "('p, 'f) env"
  defines "path \<equiv> \<lambda>d out n. os_path_join d (out @ ''-page-'' @ str_nat (n + 1) @ ''.pdf'')"
  assumes "\<forall>j < length pgs. path d out (k + j) \<notin> set (denied w) \<and> \<not> os_path_isdir w (path d out (k + j))"
  shows "\<exists>w'. split_pages_loop env w pgs k d out
                 = (Inr (map (\<lambda>j. path d out (k + j)) [0 ..< length pgs]), w') \<and>
              denied w' = denied w \<and>
              written w' = written w @ map (\<lambda>j. (path d out (k + j), pdf_writer env [pgs ! j]))
                                         [0 ..< length pgs] \<and>
              (\<forall>j < length pgs. lookup w' (path d out (k + j)) = Some (File (pdf_writer env [pgs ! j]))) \<and>
              (\<forall>q. (\<forall>j < length pgs. q \<noteq> path d out (k + j)) \<longrightarrow> lookup w' q = lookup w q)"
  using assms(2)
proof (induction pgs arbitrary: k w)
  case Nil
  then show ?case by simp
next
  case (Cons pg pgs)
  let ?p = "path d out k"
  from Cons.prems have p0: "?p \<notin> set (denied w)" "\<not> os_path_isdir w ?p" by force+
  from write_file_effect [OF p0, of "pdf_writer env [pg]"] obtain w1 where
    w1: "write_file w ?p (pdf_writer env [pg]) = Inr w1" and
    d1: "denied w1 = denied w" and
    l1: "written w1 = written w @ [(?p, pdf_writer env [pg])]" and
    f1: "\<And>q. lookup w1 q = (if q = ?p then Some (File (pdf_writer env [pg])) else lookup w q)"
    by blast
  have pre: "\<forall>j < length pgs. path d out (Suc k + j) \<notin> set (denied w1) \<and>
               \<not> os_path_isdir w1 (path d out (Suc k + j))"
  proof (intro allI impI)
    fix j assume j: "j < length pgs"
    with Cons.prems have "path d out (k + Suc j) \<notin> set (denied w) \<and>
        \<not> os_path_isdir w (path d out (k + Suc j))" by auto
    then show "path d out (Suc k + j) \<notin> set (denied w1) \<and> \<not> os_path_isdir w1 (path d out (Suc k + j))"
      using d1 f1 by (auto simp: os_path_isdir_def)
  qed
  from Cons.IH [OF pre] obtain w2 where
    r2: "split_pages_loop env w1 pgs (Suc k) d out
           = (Inr (map (\<lambda>j. path d out (Suc k + j)) [0 ..< length pgs]), w2)" and
    d2: "denied w2 = denied w1" and
    l2: "written w2 = written w1 @ map (\<lambda>j. (path d out (Suc k + j), pdf_writer env [pgs ! j]))
                                         [0 ..< length pgs]" and
    c2: "\<And>j. j < length pgs \<Longrightarrow> lookup w2 (path d out (Suc k + j)) = Some (File (pdf_writer env [pgs ! j]))" and
    f2: "\<And>q. (\<forall>j < length pgs. q \<noteq> path d out (Suc k + j)) \<Longrightarrow> lookup w2 q = lookup w1 q"
    by blast
  have shift: "map f [0 ..< Suc n] = f 0 # map (\<lambda>j. f (Suc j)) [0 ..< n]" for f :: "nat \<Rightarrow> 'b" and n
    by (simp add: upt_conv_Cons map_Suc_upt [symmetric] del: upt_Suc)
  have res: "split_pages_loop env w (pg # pgs) k d out
               = (Inr (map (\<lambda>j. path d out (k + j)) [0 ..< length (pg # pgs)]), w2)"
    using w1 r2 by (simp add: path_def shift del: upt_Suc)
  have log: "written w2 = written w @ map (\<lambda>j. (path d out (k + j), pdf_writer env [(pg # pgs) ! j]))
                                         [0 ..< length (pg # pgs)]"
    using l1 l2 by (simp add: shift del: upt_Suc)
  have ne: "?p \<noteq> path d out (Suc k + j)" for j
    using page_path_inj [of d out k "Suc k + j"] by (auto simp: path_def)
  have cont: "lookup w2 (path d out (k + j)) = Some (File (pdf_writer env [(pg # pgs) ! j]))"
    if "j < length (pg # pgs)" for j
  proof (cases j)
    case 0
    have "lookup w2 ?p = lookup w1 ?p" using ne by (intro f2) auto
    with f1 0 show ?thesis by simp
  next
    case (Suc i)
    with that c2 [of i] show ?thesis by simp
  qed
  have frame: "lookup w2 q = lookup w q" if "\<forall>j < length (pg # pgs). q \<noteq> path d out (k + j)" for q
  proof -
    from that have a: "q \<noteq> ?p" by force
    from that have "\<forall>j < length pgs. q \<noteq> path d out (Suc k + j)" by force
    then have "lookup w2 q = lookup w1 q" by (rule f2)
    with a f1 show ?thesis by simp
  qed
  show ?case using res d1 d2 log cont frame by auto
qed


text \<open>
  Claim C6. Splitting by pages a file that reads as a PDF of P pages, where the system
  accepts the P writes, returns P distinct files and the count P; the i-th file is named
  after i, and holds what the writer produces from page i of the input alone.
\<close>

theorem split_into_pages_outputs:
  fixes env :: "('p, 'f) env"
  assumes "read_file w input_file = Inr bytes"
    and "pdf_reader env bytes = Some pages"
    and "\<forall>i < length pages.
           os_path_join temp_dir (output_filename @ ''-page-'' @ str_nat (i + 1) @ ''.pdf'')
             \<notin> set (denied w) \<and>
           \<not> os_path_isdir w
               (os_path_join temp_dir (output_filename @ ''-page-'' @ str_nat (i + 1) @ ''.pdf''))"
  shows "\<exists>files w'.
           split_into_pages env w input_file temp_dir output_filename
             = (Inr (files, length pages), w') \<and>
           length files = length pages \<and> distinct files \<and>
           (\<forall>i < length pages.
              files ! i = os_path_join temp_dir
                            (output_filename @ ''-page-'' @ str_nat (i + 1) @ ''.pdf'') \<and>
              lookup w' (files ! i) = Some (File (pdf_writer env [pages ! i]))) \<and>
           written w' = written w @
             map (\<lambda>i. (files ! i, pdf_writer env [pages ! i])) [0 ..< length pages]"
proof -
  let ?path = "\<lambda>n. os_path_join temp_dir (output_filename @ ''-page-'' @ str_nat (n + 1) @ ''.pdf'')"
  let ?files = "map ?path [0 ..< length pages]"
  from assms(3) have pre: "\<forall>j < length pages. ?path (0 + j) \<notin> set (denied w) \<and>
      \<not> os_path_isdir w (?path (0 + j))" by simp
  from split_pages_loop_ok [OF pre, of env] obtain w' where
    r: "split_pages_loop env w pages 0 temp_dir output_filename = (Inr ?files, w')" and
    l: "written w' = written w @ map (\<lambda>j. (?path j, pdf_writer env [pages ! j])) [0 ..< length pages]" and
    c: "\<And>j. j < length pages \<Longrightarrow> lookup w' (?path j) = Some (File (pdf_writer env [pages ! j]))"
    by auto
  have res: "split_into_pages env w input_file temp_dir output_filename
               = (Inr (?files, length pages), w')"
    using assms(1,2) r by (simp add: split_into_pages_def)
  have "inj ?path" using page_path_inj by (intro injI) blast
  then have dist: "distinct ?files" by (simp add: distinct_map inj_on_def)
  have log: "written w' = written w @
      map (\<lambda>i. (?files ! i, pdf_writer env [pages ! i])) [0 ..< length pages]"
    using l by simp
  show ?thesis
    using res dist c log by (intro exI [of _ ?files] exI [of _ w']) simp
qed

theorem split_into_pages_outputs_witness:
  "read_file staged_world ''uploads/j1/temp_0_a.pdf'' = Inr ''%PDFabcdef'' \<and>
   pdf_reader sample_env ''%PDFabcdef'' = Some ''abcdef'' \<and>
   (\<exists>files w'.
      split_into_pages sample_env staged_world ''uploads/j1/temp_0_a.pdf'' ''uploads/j1'' ''a''
        = (Inr (files, 6), w') \<and>
      length files = 6 \<and> distinct files \<and>
      files ! 1 = ''uploads/j1/a-page-2.pdf'' \<and>
      lookup w' (files ! 1) = Some (File ''%PDFb''))"
proof -
  have h1: "read_file staged_world ''uploads/j1/temp_0_a.pdf'' = Inr ''%PDFabcdef''"
    by (simp add: read_file_def lookup_def staged_world_def)
  have h2: "pdf_reader sample_env ''%PDFabcdef'' = Some ''abcdef''"
    by (simp add: sample_env_def)
  have h3: "\<forall>i < length ''abcdef''.
           os_path_join ''uploads/j1'' (''a'' @ ''-page-'' @ str_nat (i + 1) @ ''.pdf'')
             \<notin> set (denied staged_world) \<and>
           \<not> os_path_isdir staged_world
               (os_path_join ''uploads/j1'' (''a'' @ ''-page-'' @ str_nat (i + 1) @ ''.pdf''))"
    by (simp add: staged_world_def os_path_isdir_def lookup_def os_path_join_def)
  have two: "str_nat (Suc (Suc 0)) = ''2''"
    by (simp add: str_nat.simps [of "Suc (Suc 0)"] digit_char_def ascii_digits_def)
  from split_into_pages_outputs [OF h1 h2 h3] obtain files w' where
    r: "split_into_pages sample_env staged_world ''uploads/j1/temp_0_a.pdf'' ''uploads/j1'' ''a''
          = (Inr (files, length ''abcdef''), w')" and
    n: "length files = length ''abcdef''" and d: "distinct files" and
    c: "\<forall>i < length ''abcdef''.
          files ! i = os_path_join ''uploads/j1'' (''a'' @ ''-page-'' @ str_nat (i + 1) @ ''.pdf'') \<and>
          lookup w' (files ! i) = Some (File (pdf_writer sample_env [''abcdef'' ! i]))"
    by blast
  have "files ! 1 = os_path_join ''uploads/j1'' (''a'' @ ''-page-'' @ str_nat (1 + 1) @ ''.pdf'') \<and>
      lookup w' (files ! 1) = Some (File (pdf_writer sample_env [''abcdef'' ! 1]))"
    by (rule c [rule_format]) simp
  then have c1: "files ! 1 = ''uploads/j1/a-page-2.pdf'' \<and>
      lookup w' (files ! 1) = Some (File ''%PDFb'')"
    by (auto simp: two os_path_join_def sample_env_def)
  from h1 h2 r n d c1 show ?thesis by auto
qed

end
